theory Spec2Isabelle
  imports Main "HOL-Library.Word"
begin

unbundle bit_operations_syntax

section \<open>Strings and bytes\<close>

text \<open>
  A JavaScript string is a sequence of UTF-16 code units (\<open>charCodeAt\<close> reads one of
  them), a \<open>Buffer\<close> is a sequence of bytes. String literals of the source are written
  \<open>js ''...''\<close>.
\<close>

type_synonym jsstring = "16 word list"
type_synonym bytes = "8 word list"

definition js :: "string \<Rightarrow> jsstring" where
  "js s = map of_char s"

text \<open>
  The truthiness of a value of type \<open>string | undefined\<close>: \<open>undefined\<close> and the empty
  string are falsy. \<open>or_else a b\<close> is \<open>a || b\<close>, \<open>or_str a\<close> is \<open>a || ""\<close> and
  \<open>or_undefined a\<close> is \<open>a || undefined\<close>.
\<close>

definition truthy :: "jsstring option \<Rightarrow> bool" where
  "truthy v = (case v of None \<Rightarrow> False | Some s \<Rightarrow> s \<noteq> [])"

definition or_else :: "jsstring option \<Rightarrow> jsstring option \<Rightarrow> jsstring option" where
  "or_else a b = (if truthy a then a else b)"

definition or_str :: "jsstring option \<Rightarrow> jsstring" where
  "or_str a = (case a of None \<Rightarrow> [] | Some s \<Rightarrow> s)"

definition or_undefined :: "jsstring option \<Rightarrow> jsstring option" where
  "or_undefined a = (if truthy a then a else None)"

text \<open>
  \<open>toLowerCase\<close> on the ASCII letters. (JavaScript also maps letters outside ASCII; none
  of them is mapped to a string of the type table below, whose entries are made of
  \<open>a\<close>..\<open>z\<close> without \<open>k\<close>, and \<open>_\<close>.)
\<close>

definition lowerUnit :: "16 word \<Rightarrow> 16 word" where
  "lowerUnit c = (if 65 \<le> c \<and> c \<le> 90 then c + 32 else c)"

definition toLowerCase :: "jsstring \<Rightarrow> jsstring" where
  "toLowerCase s = map lowerUnit s"

section \<open>The export file parser (parser.ts)\<close>

text \<open>
  A row of the CSV file is a \<open>Record<string, string>\<close>: a finite map from column names
  to values. \<open>record.password\<close> is \<open>r (js ''password'')\<close>, \<open>undefined\<close> when the row has
  no such column.
\<close>

type_synonym row = "jsstring \<rightharpoonup> jsstring"

record Password =
  pw_name :: jsstring
  pw_url :: "jsstring option"
  pw_username :: "jsstring option"
  pw_password :: jsstring
  pw_note :: "jsstring option"
  pw_folder :: "jsstring option"

record CreditCard =
  cc_name :: jsstring
  cc_cardholderName :: "jsstring option"
  cc_cardNumber :: "jsstring option"
  cc_expiryDate :: "jsstring option"
  cc_cvv :: "jsstring option"
  cc_note :: "jsstring option"
  cc_folder :: "jsstring option"

record SecureNote =
  sn_name :: jsstring
  sn_note :: jsstring
  sn_folder :: "jsstring option"

record ParsedExport =
  passwords :: "Password list"
  creditCards :: "CreditCard list"
  secureNotes :: "SecureNote list"

definition hasPasswordFields :: "row \<Rightarrow> bool" where
  "hasPasswordFields r =
     truthy (or_else (or_else (r (js ''password'')) (r (js ''username''))) (r (js ''url'')))"

definition hasCreditCardFields :: "row \<Rightarrow> bool" where
  "hasCreditCardFields r =
     truthy (or_else (or_else (or_else (or_else (or_else (or_else
       (r (js ''cardNumber'')) (r (js ''card_number''))) (r (js ''expiryDate'')))
       (r (js ''expiry_date''))) (r (js ''cvv''))) (r (js ''cardholderName'')))
       (r (js ''cardholder_name'')))"

definition hasSecureNoteFields :: "row \<Rightarrow> bool" where
  "hasSecureNoteFields r =
     (truthy (r (js ''note'')) \<and> \<not> truthy (r (js ''password'')) \<and> \<not> truthy (r (js ''username'')))"

definition inferItemType :: "row \<Rightarrow> jsstring" where
  "inferItemType r =
     (if hasCreditCardFields r then js ''creditcard''
      else if hasPasswordFields r then js ''password''
      else if hasSecureNoteFields r then js ''note''
      else js ''password'')"

definition parsePassword :: "row \<Rightarrow> Password" where
  "parsePassword r = \<lparr>
     pw_name = or_str (or_else (r (js ''name'')) (r (js ''title''))),
     pw_url = or_undefined (or_else (r (js ''url'')) (r (js ''website''))),
     pw_username = or_undefined (or_else (r (js ''username'')) (r (js ''login''))),
     pw_password = or_str (r (js ''password'')),
     pw_note = or_undefined (or_else (r (js ''note'')) (r (js ''notes''))),
     pw_folder = or_undefined (or_else (r (js ''folder'')) (r (js ''category''))) \<rparr>"

definition parseCreditCard :: "row \<Rightarrow> CreditCard" where
  "parseCreditCard r = \<lparr>
     cc_name = or_str (or_else (r (js ''name'')) (r (js ''title''))),
     cc_cardholderName = or_undefined (or_else (or_else (r (js ''cardholderName''))
        (r (js ''cardholder_name''))) (r (js ''cardholder''))),
     cc_cardNumber = or_undefined (or_else (or_else (r (js ''cardNumber''))
        (r (js ''card_number''))) (r (js ''number''))),
     cc_expiryDate = or_undefined (or_else (or_else (r (js ''expiryDate''))
        (r (js ''expiry_date''))) (r (js ''expiry''))),
     cc_cvv = or_undefined (or_else (or_else (r (js ''cvv'')) (r (js ''cvc'')))
        (r (js ''securityCode''))),
     cc_note = or_undefined (or_else (r (js ''note'')) (r (js ''notes''))),
     cc_folder = or_undefined (or_else (r (js ''folder'')) (r (js ''category''))) \<rparr>"

definition parseSecureNote :: "row \<Rightarrow> SecureNote" where
  "parseSecureNote r = \<lparr>
     sn_name = or_str (or_else (r (js ''name'')) (r (js ''title''))),
     sn_note = or_str (or_else (r (js ''note'')) (r (js ''notes''))),
     sn_folder = or_undefined (or_else (r (js ''folder'')) (r (js ''category''))) \<rparr>"

text \<open>
  \<open>record.type?.toLowerCase() || inferItemType(record)\<close>: the lowercased type column
  when the row has one and it is not empty, the inferred type otherwise.
\<close>

definition itemType :: "row \<Rightarrow> jsstring" where
  "itemType r =
     (let t = map_option toLowerCase (r (js ''type''))
      in case t of
           None \<Rightarrow> inferItemType r
         | Some s \<Rightarrow> if s \<noteq> [] then s else inferItemType r)"

text \<open>The body of the loop over the records: the \<open>switch\<close> on the item type.\<close>

definition pushRecord :: "ParsedExport \<Rightarrow> row \<Rightarrow> ParsedExport" where
  "pushRecord acc r =
     (let t = itemType r in
      if t = js ''password'' \<or> t = js ''login''
        then acc\<lparr>passwords := passwords acc @ [parsePassword r]\<rparr>
      else if t = js ''creditcard'' \<or> t = js ''credit_card'' \<or> t = js ''card''
        then acc\<lparr>creditCards := creditCards acc @ [parseCreditCard r]\<rparr>
      else if t = js ''note'' \<or> t = js ''securenote'' \<or> t = js ''secure_note''
        then acc\<lparr>secureNotes := secureNotes acc @ [parseSecureNote r]\<rparr>
      else if hasPasswordFields r
        then acc\<lparr>passwords := passwords acc @ [parsePassword r]\<rparr>
      else if hasCreditCardFields r
        then acc\<lparr>creditCards := creditCards acc @ [parseCreditCard r]\<rparr>
      else if hasSecureNoteFields r
        then acc\<lparr>secureNotes := secureNotes acc @ [parseSecureNote r]\<rparr>
      else acc)"

definition parseRecords :: "row list \<Rightarrow> ParsedExport" where
  "parseRecords records =
     foldl pushRecord \<lparr>passwords = [], creditCards = [], secureNotes = []\<rparr> records"

subsection \<open>The content fingerprint\<close>

text \<open>
  One round of the loop of \<open>calculateFileHash\<close>:
  \<open>hash = (hash << 5) - hash + char; hash = hash & hash\<close>. The operands stay far below
  \<open>2^53\<close>, so the double arithmetic is exact and \<open>hash & hash\<close> reduces the result to a
  32-bit integer: the round is arithmetic on 32-bit words, read as signed at the end.
\<close>

definition hashStep :: "32 word \<Rightarrow> 16 word \<Rightarrow> 32 word" where
  "hashStep hash char = push_bit 5 hash - hash + ucast char"

definition hashLoop :: "jsstring \<Rightarrow> 32 word" where
  "hashLoop content = foldl hashStep 0 content"

text \<open>\<open>Number.prototype.toString(36)\<close> on an integer.\<close>

definition digit36 :: "nat \<Rightarrow> 16 word" where
  "digit36 d = js ''0123456789abcdefghijklmnopqrstuvwxyz'' ! d"

function toRadix36 :: "nat \<Rightarrow> jsstring" where
  "toRadix36 n = (if n < 36 then [digit36 n] else toRadix36 (n div 36) @ [digit36 (n mod 36)])"
  by pat_completeness auto
termination
  by (relation "measure id") auto

declare toRadix36.simps [simp del]

definition toString36 :: "int \<Rightarrow> jsstring" where
  "toString36 i = (if i < 0 then of_char CHR ''-'' # toRadix36 (nat (- i)) else toRadix36 (nat i))"

definition hashContent :: "jsstring \<Rightarrow> jsstring" where
  "hashContent content = toString36 (sint (hashLoop content))"


section \<open>JSON values and the runtime\<close>

datatype json =
    JNull
  | JBool bool
  | JNum int
  | JStr jsstring
  | JArr "json list"
  | JObj "(jsstring \<times> json) list"

text \<open>
  \<open>v.key\<close> on a parsed value other than \<open>null\<close> (\<open>None\<close> is \<open>undefined\<close>), for the keys
  the source reads (\<open>iv\<close>, \<open>authTag\<close>, \<open>encrypted\<close>, \<open>exportFileHash\<close>): only an object
  can have them. The truthiness of a value: \<open>undefined\<close>, \<open>null\<close>, \<open>false\<close>, \<open>0\<close> and
  \<open>""\<close> are falsy.
\<close>

fun getProp :: "json \<Rightarrow> jsstring \<Rightarrow> json option" where
  "getProp (JObj kvs) k = map_of kvs k"
| "getProp _ k = None"

fun jtruthy :: "json option \<Rightarrow> bool" where
  "jtruthy None = False"
| "jtruthy (Some JNull) = False"
| "jtruthy (Some (JBool b)) = b"
| "jtruthy (Some (JNum n)) = (n \<noteq> 0)"
| "jtruthy (Some (JStr s)) = (s \<noteq> [])"
| "jtruthy (Some (JArr xs)) = True"
| "jtruthy (Some (JObj kvs)) = True"

text \<open>
  What the program calls and does not define: the CSV reader (\<open>csv-parse/sync\<close> with the
  options of \<open>parseExportFile\<close>; \<open>Inl\<close> is the message of the error it throws),
  \<open>JSON.parse\<close> (\<open>None\<close> when it throws) and \<open>JSON.stringify\<close> (with its indentation),
  \<open>crypto.pbkdf2Sync\<close>, AES-256-GCM (encryption gives the ciphertext and the tag,
  decryption is \<open>None\<close> when \<open>createDecipheriv\<close>, \<open>setAuthTag\<close> or \<open>final\<close> throws), the UTF-8
  decoder of \<open>decipher.update(..., "utf8")\<close>, and \<open>Buffer.from(v, "hex")\<close> on a value that
  is not a string (\<open>None\<close> when it throws). They are parameters of the model.
\<close>

record runtime =
  csv_parse :: "jsstring \<Rightarrow> jsstring + row list"
  JSON_parse :: "jsstring \<Rightarrow> json option"
  JSON_stringify :: "nat \<Rightarrow> json \<Rightarrow> jsstring"
  pbkdf2Sync :: "jsstring \<Rightarrow> jsstring \<Rightarrow> nat \<Rightarrow> nat \<Rightarrow> jsstring \<Rightarrow> bytes"
  aes_256_gcm_encrypt :: "bytes \<Rightarrow> bytes \<Rightarrow> bytes \<Rightarrow> bytes \<times> bytes"
  aes_256_gcm_decrypt :: "bytes \<Rightarrow> bytes \<Rightarrow> bytes \<Rightarrow> bytes \<Rightarrow> bytes option"
  utf8_decode :: "bytes \<Rightarrow> jsstring"
  Buffer_from_other :: "json \<Rightarrow> bytes option"

text \<open>
  The world the program runs in: the files and their permission bits, the path
  \<open>getExportFilePath()\<close> resolves to (\<open>None\<close> is \<open>null\<close>), Raycast's support directory,
  the machine identity read through \<open>os\<close>, \<open>Date.now()\<close>, and the bytes \<open>randomBytes\<close>
  will return. \<open>ingestions\<close> counts the runs of \<open>parseExportFile\<close>; the program does not
  read it. Directories are not modelled, writing a file and removing an existing one
  succeed, and logging is left out.
\<close>

record world =
  files :: "string \<rightharpoonup> jsstring"
  modes :: "string \<rightharpoonup> nat"
  exportFilePath :: "string option"
  supportPath :: string
  hostname :: jsstring
  username :: jsstring
  platform :: jsstring
  arch :: jsstring
  clock :: int
  entropy :: "nat \<Rightarrow> 8 word"
  drawn :: nat
  ingestions :: nat

datatype error =
    ExportFileNotSet
  | ExportFileNotFound string
  | CsvParseError jsstring
  | FileReadError string
  | DecryptionError

section \<open>The rest of parser.ts: reading the file\<close>

definition parseExportFile :: "runtime \<Rightarrow> world \<Rightarrow> string \<Rightarrow> (error + ParsedExport) \<times> world" where
  "parseExportFile R w filePath =
     (let w' = w\<lparr>ingestions := ingestions w + 1\<rparr> in
      case files w filePath of
        None \<Rightarrow> (Inl (FileReadError filePath), w')
      | Some fileContent \<Rightarrow>
          (case csv_parse R fileContent of
             Inl errorMessage \<Rightarrow> (Inl (CsvParseError errorMessage), w')
           | Inr records \<Rightarrow> (Inr (parseRecords records), w')))"

definition calculateFileHash :: "world \<Rightarrow> string \<Rightarrow> error + jsstring" where
  "calculateFileHash w filePath =
     (case files w filePath of
        None \<Rightarrow> Inl (FileReadError filePath)
      | Some content \<Rightarrow> Inr (hashContent content))"

section \<open>Encryption (encryption.ts)\<close>

subsection \<open>The \<open>hex\<close> and \<open>utf8\<close> encodings of Node\<close>

definition hexDigit :: "nat \<Rightarrow> 16 word" where
  "hexDigit d = js ''0123456789abcdef'' ! d"

definition hex_encode :: "bytes \<Rightarrow> jsstring" where
  "hex_encode bs = concat (map (\<lambda>b. [hexDigit (unat b div 16), hexDigit (unat b mod 16)]) bs)"

text \<open>
  The value of a hex digit. Node's decoder reads the low byte of a code unit, and takes the
  letters in either case.
\<close>

definition hexValue :: "16 word \<Rightarrow> nat option" where
  "hexValue c =
     (let b = c AND 0xFF in
      if 48 \<le> b \<and> b \<le> 57 then Some (unat b - 48)
      else if 97 \<le> b \<and> b \<le> 102 then Some (unat b - 87)
      else if 65 \<le> b \<and> b \<le> 70 then Some (unat b - 55)
      else None)"

text \<open>Decoding stops at the first character that is not a hex digit, or at a last single digit.\<close>

fun hex_decode :: "jsstring \<Rightarrow> bytes" where
  "hex_decode (a # b # rest) =
     (case (hexValue a, hexValue b) of
        (Some x, Some y) \<Rightarrow> of_nat (16 * x + y) # hex_decode rest
      | _ \<Rightarrow> [])"
| "hex_decode _ = []"

definition utf8_of_codepoint :: "nat \<Rightarrow> bytes" where
  "utf8_of_codepoint n =
     (if n < 0x80 then [of_nat n]
      else if n < 0x800 then [of_nat (0xC0 + n div 64), of_nat (0x80 + n mod 64)]
      else if n < 0x10000 then
        [of_nat (0xE0 + n div 4096), of_nat (0x80 + n div 64 mod 64), of_nat (0x80 + n mod 64)]
      else
        [of_nat (0xF0 + n div 262144), of_nat (0x80 + n div 4096 mod 64),
         of_nat (0x80 + n div 64 mod 64), of_nat (0x80 + n mod 64)])"

definition isHighSurrogate :: "16 word \<Rightarrow> bool" where
  "isHighSurrogate c = (0xD800 \<le> c \<and> c < 0xDC00)"

definition isLowSurrogate :: "16 word \<Rightarrow> bool" where
  "isLowSurrogate c = (0xDC00 \<le> c \<and> c < 0xE000)"

text \<open>
  Encoding a string as UTF-8: a surrogate pair is one code point, and a surrogate without
  its partner is encoded as U+FFFD, the replacement character.
\<close>

fun utf8_encode :: "jsstring \<Rightarrow> bytes" where
  "utf8_encode [] = []"
| "utf8_encode [c] =
     (if isHighSurrogate c \<or> isLowSurrogate c then utf8_of_codepoint 0xFFFD
      else utf8_of_codepoint (unat c))"
| "utf8_encode (c # d # ds) =
     (if isHighSurrogate c \<and> isLowSurrogate d
        then utf8_of_codepoint (0x10000 + (unat c - 0xD800) * 1024 + (unat d - 0xDC00))
             @ utf8_encode ds
      else if isHighSurrogate c \<or> isLowSurrogate c
        then utf8_of_codepoint 0xFFFD @ utf8_encode (d # ds)
      else utf8_of_codepoint (unat c) @ utf8_encode (d # ds))"

text \<open>\<open>Buffer.from(v, "hex")\<close> on a property of the parsed token.\<close>

definition Buffer_from_hex :: "runtime \<Rightarrow> json option \<Rightarrow> bytes option" where
  "Buffer_from_hex R v =
     (case v of
        None \<Rightarrow> None
      | Some (JStr s) \<Rightarrow> Some (hex_decode s)
      | Some u \<Rightarrow> Buffer_from_other R u)"

subsection \<open>The key and the codec\<close>

fun joinWith :: "jsstring \<Rightarrow> jsstring list \<Rightarrow> jsstring" where
  "joinWith sep [] = []"
| "joinWith sep [x] = x"
| "joinWith sep (x # y # ys) = x @ sep @ joinWith sep (y # ys)"

definition systemInfo :: "world \<Rightarrow> jsstring" where
  "systemInfo w = joinWith (js ''|'') [hostname w, username w, platform w, arch w]"

definition deriveEncryptionKey :: "runtime \<Rightarrow> world \<Rightarrow> bytes" where
  "deriveEncryptionKey R w =
     pbkdf2Sync R (systemInfo w) (js ''nordpass-raycast-extension-v1'') 100000 32 (js ''sha256'')"

definition randomBytes :: "world \<Rightarrow> nat \<Rightarrow> bytes \<times> world" where
  "randomBytes w n = (map (entropy w) [drawn w ..< drawn w + n], w\<lparr>drawn := drawn w + n\<rparr>)"

definition tokenJson :: "jsstring \<Rightarrow> jsstring \<Rightarrow> jsstring \<Rightarrow> json" where
  "tokenJson ivHex authTagHex encryptedHex =
     JObj [(js ''iv'', JStr ivHex),
           (js ''authTag'', JStr authTagHex),
           (js ''encrypted'', JStr encryptedHex)]"

definition tokenObject :: "bytes \<Rightarrow> bytes \<Rightarrow> bytes \<Rightarrow> json" where
  "tokenObject iv authTag encrypted =
     tokenJson (hex_encode iv) (hex_encode authTag) (hex_encode encrypted)"

definition encryptData :: "runtime \<Rightarrow> world \<Rightarrow> jsstring \<Rightarrow> jsstring \<times> world" where
  "encryptData R w data =
     (let key = deriveEncryptionKey R w;
          (iv, w') = randomBytes w 16;
          (encrypted, authTag) = aes_256_gcm_encrypt R key iv (utf8_encode data)
      in (JSON_stringify R 0 (tokenObject iv authTag encrypted), w'))"

text \<open>
  Everything \<open>decryptData\<close> does is inside one \<open>try\<close>, and the \<open>catch\<close> throws the one
  error: a token that does not parse, \<open>null\<close> (reading a property of it throws), a
  property \<open>Buffer.from\<close> refuses, an \<open>encrypted\<close> that is not a string, and a cipher that
  refuses the key, the nonce or the tag all end in \<open>DecryptionError\<close>; so does an
  \<open>encrypted\<close> of odd length, which \<open>decipher.update(encrypted, "hex", ...)\<close> refuses
  (\<open>Buffer.from\<close> drops a last single digit instead). \<open>decryptParsed\<close> is the body of the
  \<open>try\<close> after \<open>JSON.parse\<close>, on the value \<open>data\<close> it returned.
\<close>

definition decryptParsed :: "runtime \<Rightarrow> world \<Rightarrow> json \<Rightarrow> error + jsstring" where
  "decryptParsed R w data =
     (let key = deriveEncryptionKey R w in
      case data of
        JNull \<Rightarrow> Inl DecryptionError
      | _ \<Rightarrow>
          (case (Buffer_from_hex R (getProp data (js ''iv'')),
                 Buffer_from_hex R (getProp data (js ''authTag'')),
                 getProp data (js ''encrypted'')) of
             (Some iv, Some authTag, Some (JStr encrypted)) \<Rightarrow>
               if odd (length encrypted) then Inl DecryptionError
               else
                 (case aes_256_gcm_decrypt R key iv authTag (hex_decode encrypted) of
                    None \<Rightarrow> Inl DecryptionError
                  | Some decrypted \<Rightarrow> Inr (utf8_decode R decrypted))
           | _ \<Rightarrow> Inl DecryptionError))"

definition decryptData :: "runtime \<Rightarrow> world \<Rightarrow> jsstring \<Rightarrow> error + jsstring" where
  "decryptData R w encryptedData =
     (case JSON_parse R encryptedData of
        None \<Rightarrow> Inl DecryptionError
      | Some data \<Rightarrow> decryptParsed R w data)"

definition isEncrypted :: "runtime \<Rightarrow> jsstring \<Rightarrow> bool" where
  "isEncrypted R data =
     (case JSON_parse R data of
        None \<Rightarrow> False
      | Some JNull \<Rightarrow> False
      | Some parsed \<Rightarrow>
          jtruthy (getProp parsed (js ''iv'')) \<and> jtruthy (getProp parsed (js ''authTag''))
          \<and> jtruthy (getProp parsed (js ''encrypted'')))"

definition setSecureFilePermissions :: "world \<Rightarrow> string \<Rightarrow> world" where
  "setSecureFilePermissions w filePath =
     (if files w filePath = None then w else w\<lparr>modes := (modes w)(filePath \<mapsto> 384)\<rparr>)"

definition readSecureFile :: "runtime \<Rightarrow> world \<Rightarrow> string \<Rightarrow> error + jsstring" where
  "readSecureFile R w filePath =
     (case files w filePath of
        None \<Rightarrow> Inl (FileReadError filePath)
      | Some content \<Rightarrow> if isEncrypted R content then decryptData R w content else Inr content)"

definition writeSecureFile :: "runtime \<Rightarrow> world \<Rightarrow> string \<Rightarrow> jsstring \<Rightarrow> bool \<Rightarrow> world" where
  "writeSecureFile R w filePath data encrypt =
     (let (content, w') = (if encrypt then encryptData R w data else (data, w))
      in setSecureFilePermissions (w'\<lparr>files := (files w')(filePath \<mapsto> content)\<rparr>) filePath)"


section \<open>The cache (storage.ts)\<close>

text \<open>
  \<open>JSON.parse(cacheContent) as CachedData\<close> is an unchecked cast, so the cached data in
  memory is whatever value the cache file held: a \<open>CachedData\<close> is a JSON value. The object
  \<open>refreshCache\<close> builds is the value below; a property that is \<open>undefined\<close> is left out,
  as \<open>JSON.stringify\<close> leaves it out.
\<close>

definition optProp :: "string \<Rightarrow> jsstring option \<Rightarrow> (jsstring \<times> json) list" where
  "optProp k v = (case v of None \<Rightarrow> [] | Some s \<Rightarrow> [(js k, JStr s)])"

definition Password_json :: "Password \<Rightarrow> json" where
  "Password_json p =
     JObj ([(js ''type'', JStr (js ''password'')), (js ''name'', JStr (pw_name p))]
       @ optProp ''url'' (pw_url p) @ optProp ''username'' (pw_username p)
       @ [(js ''password'', JStr (pw_password p))]
       @ optProp ''note'' (pw_note p) @ optProp ''folder'' (pw_folder p))"

definition CreditCard_json :: "CreditCard \<Rightarrow> json" where
  "CreditCard_json c =
     JObj ([(js ''type'', JStr (js ''creditCard'')), (js ''name'', JStr (cc_name c))]
       @ optProp ''cardholderName'' (cc_cardholderName c)
       @ optProp ''cardNumber'' (cc_cardNumber c)
       @ optProp ''expiryDate'' (cc_expiryDate c) @ optProp ''cvv'' (cc_cvv c)
       @ optProp ''note'' (cc_note c) @ optProp ''folder'' (cc_folder c))"

definition SecureNote_json :: "SecureNote \<Rightarrow> json" where
  "SecureNote_json n =
     JObj ([(js ''type'', JStr (js ''secureNote'')), (js ''name'', JStr (sn_name n)),
            (js ''note'', JStr (sn_note n))]
       @ optProp ''folder'' (sn_folder n))"

definition cachedData :: "ParsedExport \<Rightarrow> int \<Rightarrow> jsstring \<Rightarrow> json" where
  "cachedData parsed lastUpdated exportFileHash =
     JObj [(js ''passwords'', JArr (map Password_json (passwords parsed))),
           (js ''creditCards'', JArr (map CreditCard_json (creditCards parsed))),
           (js ''secureNotes'', JArr (map SecureNote_json (secureNotes parsed))),
           (js ''lastUpdated'', JNum lastUpdated),
           (js ''exportFileHash'', JStr exportFileHash)]"

definition getCacheFilePath :: "world \<Rightarrow> string" where
  "getCacheFilePath w = supportPath w @ ''/nordpass-cache.json''"

definition unlink :: "world \<Rightarrow> string \<Rightarrow> world" where
  "unlink w filePath = w\<lparr>files := (files w)(filePath := None), modes := (modes w)(filePath := None)\<rparr>"

definition secureExportFile :: "world \<Rightarrow> string \<Rightarrow> world" where
  "secureExportFile w filePath =
     (if files w filePath \<noteq> None then w\<lparr>modes := (modes w)(filePath \<mapsto> 384)\<rparr> else w)"

text \<open>
  \<open>loadCachedData\<close>: \<open>None\<close> is the \<open>null\<close> it returns. Whatever is thrown while the
  file is read, decrypted and parsed is caught; the handler removes the cache file.
\<close>

definition loadCachedData :: "runtime \<Rightarrow> world \<Rightarrow> json option \<times> world" where
  "loadCachedData R w =
     (let cachePath = getCacheFilePath w in
      if files w cachePath = None then (None, w)
      else
        (case readSecureFile R w cachePath of
           Inl e \<Rightarrow> (None, unlink w cachePath)
         | Inr cacheContent \<Rightarrow>
             (case JSON_parse R cacheContent of
                None \<Rightarrow> (None, unlink w cachePath)
              | Some v \<Rightarrow> (Some v, w))))"

definition saveCachedData :: "runtime \<Rightarrow> world \<Rightarrow> json \<Rightarrow> world" where
  "saveCachedData R w data =
     writeSecureFile R w (getCacheFilePath w) (JSON_stringify R 2 data) True"

definition refreshCache :: "runtime \<Rightarrow> world \<Rightarrow> (error + json) \<times> world" where
  "refreshCache R w =
     (case exportFilePath w of
        None \<Rightarrow> (Inl ExportFileNotSet, w)
      | Some p \<Rightarrow>
          if p = [] then (Inl ExportFileNotSet, w)
          else if files w p = None then (Inl (ExportFileNotFound p), w)
          else
            (case parseExportFile R w p of
               (Inl e, w1) \<Rightarrow> (Inl e, w1)
             | (Inr parsed, w1) \<Rightarrow>
                 (let w2 = secureExportFile w1 p in
                  case calculateFileHash w2 p of
                    Inl e \<Rightarrow> (Inl e, w2)
                  | Inr exportFileHash \<Rightarrow>
                      (let data = cachedData parsed (clock w2) exportFileHash
                       in (Inr data, saveCachedData R w2 data)))))"

definition getCachedData :: "runtime \<Rightarrow> bool \<Rightarrow> world \<Rightarrow> (error + json) \<times> world" where
  "getCachedData R forceRefresh w =
     (case exportFilePath w of
        None \<Rightarrow> (Inl ExportFileNotSet, w)
      | Some p \<Rightarrow>
          if p = [] then (Inl ExportFileNotSet, w)
          else if forceRefresh then refreshCache R w
          else
            (case loadCachedData R w of
               (cached, w1) \<Rightarrow>
                 (case cached of
                    None \<Rightarrow> refreshCache R w1
                  | Some c \<Rightarrow>
                      if \<not> jtruthy (Some c) then refreshCache R w1
                      else if files w1 p \<noteq> None then
                        (case calculateFileHash w1 p of
                           Inl e \<Rightarrow> (Inl e, w1)
                         | Inr currentHash \<Rightarrow>
                             if getProp c (js ''exportFileHash'') \<noteq> Some (JStr currentHash)
                             then refreshCache R w1
                             else (Inr c, w1))
                      else (Inr c, w1))))"

definition clearCache :: "world \<Rightarrow> world" where
  "clearCache w =
     (if files w (getCacheFilePath w) \<noteq> None then unlink w (getCacheFilePath w) else w)"


section \<open>Notions used in the statements\<close>

text \<open>
  The value a list of synonym columns gives: the value of the first column of the list
  that the row has with a value that is not empty.
\<close>

fun firstNonEmpty :: "row \<Rightarrow> string list \<Rightarrow> jsstring option" where
  "firstNonEmpty r [] = None"
| "firstNonEmpty r (k # ks) =
     (case r (js k) of
        None \<Rightarrow> firstNonEmpty r ks
      | Some v \<Rightarrow> if v \<noteq> [] then Some v else firstNonEmpty r ks)"

text \<open>
  The value the claimed rule gives: the value of the first column of the list that the row
  has, empty or not.
\<close>

fun firstPresent :: "row \<Rightarrow> string list \<Rightarrow> jsstring option" where
  "firstPresent r [] = None"
| "firstPresent r (k # ks) = (case r (js k) of None \<Rightarrow> firstPresent r ks | Some v \<Rightarrow> Some v)"

text \<open>
  What the statements ask of the runtime, at one key, nonce and plaintext: \<open>JSON.parse\<close>
  reads the token \<open>JSON.stringify\<close> wrote, AES-256-GCM decrypts what it encrypted, and
  the UTF-8 decoder reads the encoding of the plaintext back.
\<close>

definition codec_inverts :: "runtime \<Rightarrow> bytes \<Rightarrow> bytes \<Rightarrow> jsstring \<Rightarrow> bool" where
  "codec_inverts R key iv data =
     (case aes_256_gcm_encrypt R key iv (utf8_encode data) of
        (encrypted, authTag) \<Rightarrow>
          JSON_parse R (JSON_stringify R 0 (tokenObject iv authTag encrypted))
            = Some (tokenObject iv authTag encrypted)
          \<and> aes_256_gcm_decrypt R key iv authTag encrypted = Some (utf8_encode data)
          \<and> utf8_decode R (utf8_encode data) = data)"

text \<open>The sizes of GCM: a ciphertext as long as the plaintext, a tag of 16 bytes.\<close>

definition gcm_sizes :: "runtime \<Rightarrow> bytes \<Rightarrow> bytes \<Rightarrow> jsstring \<Rightarrow> bool" where
  "gcm_sizes R key iv data =
     (case aes_256_gcm_encrypt R key iv (utf8_encode data) of
        (encrypted, authTag) \<Rightarrow>
          length encrypted = length (utf8_encode data) \<and> length authTag = 16)"

text \<open>The cache file is there and \<open>loadCachedData\<close> cannot read it.\<close>

definition cacheUnreadable :: "runtime \<Rightarrow> world \<Rightarrow> bool" where
  "cacheUnreadable R w =
     (files w (getCacheFilePath w) \<noteq> None \<and>
      (case readSecureFile R w (getCacheFilePath w) of
         Inl e \<Rightarrow> True
       | Inr cacheContent \<Rightarrow> JSON_parse R cacheContent = None))"


section \<open>A small runtime and worlds for the instances\<close>

text \<open>
  The theorems below hold for every runtime. Their instances are stated in a small one: a
  CSV reader that fails on a quotation mark and otherwise returns one row, a JSON writer
  that prints \<open>T\<close>, the tag and the ciphertext of a token and \<open>D\<close> and the fingerprint of cached
  data, a JSON reader that knows the values of a table, a key made of the length of the
  password, a cipher that adds one to every byte and whose tag is the first 15 bytes of
  the key and the sum of the bytes of the ciphertext, and a UTF-8 decoder for ASCII.
\<close>

definition demoRow :: row where
  "demoRow = [js ''name'' \<mapsto> js ''Example'', js ''password'' \<mapsto> js ''s3cr3t'']"

definition demoCsv :: "jsstring \<Rightarrow> jsstring + row list" where
  "demoCsv s = (if 34 \<in> set s then Inl (js ''Quote Not Closed'') else Inr [demoRow])"

definition demoStringify :: "nat \<Rightarrow> json \<Rightarrow> jsstring" where
  "demoStringify indent v =
     (case (getProp v (js ''authTag''), getProp v (js ''encrypted'')) of
        (Some (JStr t), Some (JStr s)) \<Rightarrow> js ''T'' @ t @ js ''.'' @ s
      | _ \<Rightarrow> (case getProp v (js ''exportFileHash'') of
                 Some (JStr h) \<Rightarrow> js ''D'' @ h
               | _ \<Rightarrow> js ''null''))"

definition demoParse :: "json list \<Rightarrow> jsstring \<Rightarrow> json option" where
  "demoParse table s = map_of (map (\<lambda>v. (demoStringify 0 v, v)) table) s"

definition demoKdf :: "jsstring \<Rightarrow> jsstring \<Rightarrow> nat \<Rightarrow> nat \<Rightarrow> jsstring \<Rightarrow> bytes" where
  "demoKdf password salt iterations keylen digest = replicate keylen (of_nat (length password))"

definition demoTag :: "bytes \<Rightarrow> bytes \<Rightarrow> bytes" where
  "demoTag key ciphertext = take 15 key @ [sum_list ciphertext]"

definition demoEncrypt :: "bytes \<Rightarrow> bytes \<Rightarrow> bytes \<Rightarrow> bytes \<times> bytes" where
  "demoEncrypt key iv plaintext =
     (map (\<lambda>b. b + 1) plaintext, demoTag key (map (\<lambda>b. b + 1) plaintext))"

definition demoDecrypt :: "bytes \<Rightarrow> bytes \<Rightarrow> bytes \<Rightarrow> bytes \<Rightarrow> bytes option" where
  "demoDecrypt key iv authTag ciphertext =
     (if authTag = demoTag key ciphertext \<and> iv \<noteq> []
      then Some (map (\<lambda>b. b - 1) ciphertext) else None)"

definition demoRuntime :: "json list \<Rightarrow> runtime" where
  "demoRuntime table = \<lparr>
     csv_parse = demoCsv,
     JSON_parse = demoParse table,
     JSON_stringify = demoStringify,
     pbkdf2Sync = demoKdf,
     aes_256_gcm_encrypt = demoEncrypt,
     aes_256_gcm_decrypt = demoDecrypt,
     utf8_decode = map ucast,
     Buffer_from_other = (\<lambda>v. None) \<rparr>"

definition demoWorld :: world where
  "demoWorld = \<lparr>
     files = [''/export.csv'' \<mapsto> js ''a,b''],
     modes = Map.empty,
     exportFilePath = Some ''/export.csv'',
     supportPath = ''/support'',
     hostname = js ''mac'',
     username = js ''ann'',
     platform = js ''darwin'',
     arch = js ''arm64'',
     clock = 1700000000000,
     entropy = of_nat,
     drawn = 0,
     ingestions = 0 \<rparr>"

definition demoData :: json where
  "demoData = cachedData (parseRecords [demoRow]) (clock demoWorld) (hashContent (js ''a,b''))"

definition demoToken :: "jsstring \<Rightarrow> json" where
  "demoToken data =
     (case demoEncrypt (demoKdf (systemInfo demoWorld) [] 0 32 []) (fst (randomBytes demoWorld 16))
             (utf8_encode data) of
        (encrypted, authTag) \<Rightarrow> tokenObject (fst (randomBytes demoWorld 16)) authTag encrypted)"

definition demoTable :: "json list" where
  "demoTable = [demoToken (demoStringify 2 demoData), demoToken [], demoData]"


definition demoTagHex :: jsstring where
  "demoTagHex =
     hex_encode (demoTag (demoKdf (systemInfo demoWorld) [] 0 32 []) [69, 51, 50, 50, 123])"


text \<open>Two machines whose identities differ and are joined to the same string.\<close>

definition machineA :: world where
  "machineA = demoWorld\<lparr>hostname := js ''a|b'', username := js ''c''\<rparr>"



definition staleWorld :: world where
  "staleWorld = demoWorld\<lparr>files :=
     [''/export.csv'' \<mapsto> [34],
      ''/support/nordpass-cache.json'' \<mapsto>
        fst (encryptData (demoRuntime demoTable) demoWorld (js ''D211z''))]\<rparr>"


section \<open>Auxiliary facts\<close>

subsection \<open>The hex and UTF-8 encodings\<close>

lemma hexValue_hexDigit: "d < 16 \<Longrightarrow> hexValue (hexDigit d) = Some d"
proof -
  assume "d < 16"
  then have "d = 0 \<or> d = 1 \<or> d = 2 \<or> d = 3 \<or> d = 4 \<or> d = 5 \<or> d = 6 \<or> d = 7 \<or> d = 8
      \<or> d = 9 \<or> d = 10 \<or> d = 11 \<or> d = 12 \<or> d = 13 \<or> d = 14 \<or> d = 15"
    by arith
  then show ?thesis
    by (auto simp: hexDigit_def hexValue_def js_def)
qed

lemma hex_decode_encode: "hex_decode (hex_encode bs) = bs"
proof (induction bs)
  case Nil
  show ?case by (simp add: hex_encode_def)
next
  case (Cons b bs)
  have "unat b < 2 ^ LENGTH(8)" by (rule unsigned_less)
  then have d1: "unat b div 16 < 16" by simp
  have d2: "unat b mod 16 < 16" by simp
  have "(of_nat (16 * (unat b div 16) + unat b mod 16) :: 8 word) = b"
    by (simp only: mult_div_mod_eq of_nat_unat ucast_id)
  with Cons d1 d2 show ?case
    by (simp add: hex_encode_def hexValue_hexDigit)
qed

lemma hex_encode_empty_iff: "hex_encode bs = [] \<longleftrightarrow> bs = []"
  by (cases bs) (simp_all add: hex_encode_def)

lemma utf8_of_codepoint_nonempty: "utf8_of_codepoint n \<noteq> []"
  by (simp add: utf8_of_codepoint_def)

lemma utf8_encode_empty_iff: "utf8_encode x = [] \<longleftrightarrow> x = []"
  by (induction x rule: utf8_encode.induct) (simp_all add: utf8_of_codepoint_nonempty)

subsection \<open>Tokens\<close>

lemma tokenJson_keys:
  "getProp (tokenJson ivHex authTagHex encryptedHex) (js ''iv'') = Some (JStr ivHex)"
  "getProp (tokenJson ivHex authTagHex encryptedHex) (js ''authTag'') = Some (JStr authTagHex)"
  "getProp (tokenJson ivHex authTagHex encryptedHex) (js ''encrypted'') = Some (JStr encryptedHex)"
  by (simp_all add: tokenJson_def js_def)

lemma token_keys:
  "getProp (tokenObject iv authTag encrypted) (js ''iv'') = Some (JStr (hex_encode iv))"
  "getProp (tokenObject iv authTag encrypted) (js ''authTag'') = Some (JStr (hex_encode authTag))"
  "getProp (tokenObject iv authTag encrypted) (js ''encrypted'') = Some (JStr (hex_encode encrypted))"
  by (simp_all add: tokenObject_def tokenJson_keys)

lemma isEncrypted_token:
  assumes "JSON_parse R s = Some (tokenObject iv authTag encrypted)"
  shows "isEncrypted R s \<longleftrightarrow> iv \<noteq> [] \<and> authTag \<noteq> [] \<and> encrypted \<noteq> []"
proof -
  have "isEncrypted R s \<longleftrightarrow>
      jtruthy (getProp (tokenObject iv authTag encrypted) (js ''iv''))
      \<and> jtruthy (getProp (tokenObject iv authTag encrypted) (js ''authTag''))
      \<and> jtruthy (getProp (tokenObject iv authTag encrypted) (js ''encrypted''))"
    using assms by (simp add: isEncrypted_def tokenObject_def tokenJson_def)
  then show ?thesis by (simp add: token_keys hex_encode_empty_iff)
qed

lemma length_hex_encode: "length (hex_encode bs) = 2 * length bs"
  by (induction bs) (simp_all add: hex_encode_def)

lemma decryptParsed_tokenJson:
  "decryptParsed R w (tokenJson ivHex authTagHex encryptedHex) =
     (if odd (length encryptedHex) then Inl DecryptionError
      else
        (case aes_256_gcm_decrypt R (deriveEncryptionKey R w)
                (hex_decode ivHex) (hex_decode authTagHex) (hex_decode encryptedHex) of
           None \<Rightarrow> Inl DecryptionError
         | Some decrypted \<Rightarrow> Inr (utf8_decode R decrypted)))"
proof -
  have "decryptParsed R w (tokenJson ivHex authTagHex encryptedHex) =
     (case (Buffer_from_hex R (getProp (tokenJson ivHex authTagHex encryptedHex) (js ''iv'')),
            Buffer_from_hex R (getProp (tokenJson ivHex authTagHex encryptedHex) (js ''authTag'')),
            getProp (tokenJson ivHex authTagHex encryptedHex) (js ''encrypted'')) of
        (Some iv', Some authTag', Some (JStr encrypted')) \<Rightarrow>
          if odd (length encrypted') then Inl DecryptionError
          else
            (case aes_256_gcm_decrypt R (deriveEncryptionKey R w) iv' authTag' (hex_decode encrypted') of
               None \<Rightarrow> Inl DecryptionError
             | Some decrypted \<Rightarrow> Inr (utf8_decode R decrypted))
      | _ \<Rightarrow> Inl DecryptionError)"
    by (simp add: decryptParsed_def tokenJson_def)
  then show ?thesis
    by (simp add: tokenJson_keys Buffer_from_hex_def)
qed

lemma decryptData_token:
  assumes "JSON_parse R s = Some (tokenObject iv authTag encrypted)"
  shows "decryptData R w s =
     (case aes_256_gcm_decrypt R (deriveEncryptionKey R w) iv authTag encrypted of
        None \<Rightarrow> Inl DecryptionError
      | Some decrypted \<Rightarrow> Inr (utf8_decode R decrypted))"
  using assms
  by (simp add: decryptData_def tokenObject_def decryptParsed_tokenJson hex_decode_encode
      length_hex_encode)

lemma encryptData_fst:
  "fst (encryptData R w data) =
     (case aes_256_gcm_encrypt R (deriveEncryptionKey R w) (fst (randomBytes w 16)) (utf8_encode data) of
        (encrypted, authTag) \<Rightarrow>
          JSON_stringify R 0 (tokenObject (fst (randomBytes w 16)) authTag encrypted))"
  by (simp add: encryptData_def randomBytes_def Let_def split: prod.splits)

lemma encryptData_snd: "snd (encryptData R w data) = w\<lparr>drawn := drawn w + 16\<rparr>"
  by (simp add: encryptData_def randomBytes_def Let_def split: prod.splits)

lemma deriveEncryptionKey_cong:
  "systemInfo w' = systemInfo w \<Longrightarrow> deriveEncryptionKey R w' = deriveEncryptionKey R w"
  by (simp add: deriveEncryptionKey_def)

lemma decrypt_encrypt:
  assumes "codec_inverts R (deriveEncryptionKey R w) (fst (randomBytes w 16)) data"
    and "systemInfo w' = systemInfo w"
  shows "decryptData R w' (fst (encryptData R w data)) = Inr data"
proof -
  obtain encrypted authTag where
    e: "aes_256_gcm_encrypt R (deriveEncryptionKey R w) (fst (randomBytes w 16)) (utf8_encode data)
          = (encrypted, authTag)"
    by (cases "aes_256_gcm_encrypt R (deriveEncryptionKey R w) (fst (randomBytes w 16)) (utf8_encode data)")
  let ?iv = "fst (randomBytes w 16)"
  from assms(1) e have
    p: "JSON_parse R (JSON_stringify R 0 (tokenObject ?iv authTag encrypted))
         = Some (tokenObject ?iv authTag encrypted)"
    and d: "aes_256_gcm_decrypt R (deriveEncryptionKey R w) ?iv authTag encrypted = Some (utf8_encode data)"
    and u: "utf8_decode R (utf8_encode data) = data"
    by (simp_all add: codec_inverts_def)
  have "fst (encryptData R w data) = JSON_stringify R 0 (tokenObject ?iv authTag encrypted)"
    by (simp add: encryptData_fst e)
  then show ?thesis
    using decryptData_token [OF p, of w'] d u deriveEncryptionKey_cong [OF assms(2), of R]
    by simp
qed

lemma randomBytes_length: "length (fst (randomBytes w n)) = n"
  by (simp add: randomBytes_def)

subsection \<open>The fingerprint\<close>

lemma hashStep_31: "hashStep h c = 31 * h + ucast c"
  by (simp add: hashStep_def push_bit_eq_mult)

lemma foldl_hashStep_affine: "foldl hashStep h zs = 31 ^ length zs * h + foldl hashStep 0 zs"
proof (induction zs arbitrary: h)
  case Nil show ?case by simp
next
  case (Cons z zs)
  show ?case
    apply (simp add: Cons.IH[of "hashStep h z"] Cons.IH[of "hashStep 0 z"])
    apply (simp add: hashStep_31 algebra_simps)
    done
qed

lemma pow31_cancel:
  fixes x :: "32 word"
  assumes "31 ^ n * x = 0"
  shows "x = 0"
proof -
  have one: "(3186588639::32 word) * 31 = 1" by simp
  have "(3186588639::32 word) ^ n * 31 ^ n = (3186588639 * 31) ^ n"
    by (rule power_mult_distrib [symmetric])
  then have inv: "(3186588639::32 word) ^ n * 31 ^ n = 1"
    by (simp only: one power_one)
  have "x = (3186588639 ^ n * 31 ^ n) * x" by (simp only: inv mult_1)
  also have "\<dots> = 3186588639 ^ n * (31 ^ n * x)" by (simp only: mult.assoc)
  also have "\<dots> = 0" by (simp only: assms mult_zero_right)
  finally show ?thesis .
qed

lemma ucast_16_32_inj: "(ucast (a::16 word) :: 32 word) = ucast b \<Longrightarrow> a = b"
proof -
  assume "(ucast a :: 32 word) = ucast b"
  then have "(ucast (ucast a :: 32 word) :: 16 word) = ucast (ucast b :: 32 word)" by simp
  then show ?thesis by (simp add: ucast_up_ucast_id is_up)
qed

lemma hashLoop_change_unit:
  assumes "hashLoop (xs @ a # zs) = hashLoop (xs @ b # zs)"
  shows "a = b"
proof -
  let ?h = "foldl hashStep 0 xs"
  have "31 ^ length zs * hashStep ?h a = 31 ^ length zs * hashStep ?h b"
    using assms foldl_hashStep_affine [of "hashStep ?h a" zs] foldl_hashStep_affine [of "hashStep ?h b" zs]
    by (simp add: hashLoop_def)
  then have "31 ^ length zs * (hashStep ?h a - hashStep ?h b) = 0"
    by (simp add: algebra_simps)
  then have "hashStep ?h a - hashStep ?h b = 0" by (rule pow31_cancel)
  then have "(ucast a :: 32 word) = ucast b" by (simp add: hashStep_31)
  then show ?thesis by (rule ucast_16_32_inj)
qed

lemma digit36_inj: "a < 36 \<Longrightarrow> b < 36 \<Longrightarrow> digit36 a = digit36 b \<Longrightarrow> a = b"
proof -
  assume a: "a < 36" and b: "b < 36" and e: "digit36 a = digit36 b"
  have d: "distinct (js ''0123456789abcdefghijklmnopqrstuvwxyz'')" by (simp add: js_def)
  have l: "length (js ''0123456789abcdefghijklmnopqrstuvwxyz'') = 36" by (simp add: js_def)
  show ?thesis using e a b d l unfolding digit36_def by (simp add: nth_eq_iff_index_eq)
qed

lemma digit36_not_minus: "d < 36 \<Longrightarrow> digit36 d \<noteq> 45"
proof -
  assume "d < 36"
  then have "digit36 d \<in> set (js ''0123456789abcdefghijklmnopqrstuvwxyz'')"
    unfolding digit36_def by (intro nth_mem) (simp add: js_def)
  then show ?thesis by (auto simp: js_def)
qed

lemma toRadix36_digits: "x \<in> set (toRadix36 n) \<Longrightarrow> x \<noteq> 45"
proof (induction n arbitrary: x rule: toRadix36.induct)
  case (1 n)
  show ?case
  proof (cases "n < 36")
    case True
    with "1.prems" show ?thesis by (simp add: toRadix36.simps [of n] digit36_not_minus)
  next
    case False
    with "1.prems" "1.IH" show ?thesis
      by (auto simp: toRadix36.simps [of n] digit36_not_minus)
  qed
qed

lemma toRadix36_nonempty: "toRadix36 n \<noteq> []"
  by (subst toRadix36.simps) simp

lemma toRadix36_inj: "toRadix36 a = toRadix36 b \<Longrightarrow> a = b"
proof (induction a arbitrary: b rule: toRadix36.induct)
  case (1 n)
  show ?case
  proof (cases "n < 36")
    case True
    then have n: "toRadix36 n = [digit36 n]" by (simp add: toRadix36.simps [of n])
    show ?thesis
    proof (cases "b < 36")
      case True
      then have "toRadix36 b = [digit36 b]" by (simp add: toRadix36.simps [of b])
      with n "1.prems" \<open>n < 36\<close> True show ?thesis by (simp add: digit36_inj)
    next
      case False
      then have "toRadix36 b = toRadix36 (b div 36) @ [digit36 (b mod 36)]"
        by (simp add: toRadix36.simps [of b])
      with n "1.prems" toRadix36_nonempty [of "b div 36"] show ?thesis by simp
    qed
  next
    case False
    then have n: "toRadix36 n = toRadix36 (n div 36) @ [digit36 (n mod 36)]"
      by (simp add: toRadix36.simps [of n])
    show ?thesis
    proof (cases "b < 36")
      case True
      then have "toRadix36 b = [digit36 b]" by (simp add: toRadix36.simps [of b])
      with n "1.prems" toRadix36_nonempty [of "n div 36"] show ?thesis by simp
    next
      case bb: False
      then have b: "toRadix36 b = toRadix36 (b div 36) @ [digit36 (b mod 36)]"
        by (simp add: toRadix36.simps [of b])
      from n b "1.prems" have e1: "toRadix36 (n div 36) = toRadix36 (b div 36)"
        and e2: "digit36 (n mod 36) = digit36 (b mod 36)" by simp_all
      from "1.IH" [OF False e1] have q: "n div 36 = b div 36" .
      from e2 have r: "n mod 36 = b mod 36" by (simp add: digit36_inj)
      from q r show ?thesis by (metis div_mult_mod_eq)
    qed
  qed
qed

lemma toString36_inj: "toString36 i = toString36 j \<Longrightarrow> i = j"
proof -
  assume e: "toString36 i = toString36 j"
  have m: "\<And>n xs. toRadix36 n \<noteq> 45 # xs"
  proof
    fix n xs assume "toRadix36 n = 45 # xs"
    then have "45 \<in> set (toRadix36 n)" by simp
    then show False using toRadix36_digits by blast
  qed
  show ?thesis
  proof (cases "i < 0")
    case True
    show ?thesis
    proof (cases "j < 0")
      case True
      with \<open>i < 0\<close> e have "nat (- i) = nat (- j)" by (simp add: toString36_def toRadix36_inj)
      with True \<open>i < 0\<close> show ?thesis by simp
    next
      case False
      with \<open>i < 0\<close> e m [of "nat j" "toRadix36 (nat (- i))"] show ?thesis by (simp add: toString36_def)
    qed
  next
    case False
    show ?thesis
    proof (cases "j < 0")
      case True
      with \<open>\<not> i < 0\<close> e m [of "nat i" "toRadix36 (nat (- j))"] show ?thesis by (simp add: toString36_def)
    next
      case False
      with \<open>\<not> i < 0\<close> e have "nat i = nat j" by (simp add: toString36_def toRadix36_inj)
      with False \<open>\<not> i < 0\<close> show ?thesis by simp
    qed
  qed
qed

lemma hashContent_eq_iff: "hashContent a = hashContent b \<longleftrightarrow> hashLoop a = hashLoop b"
  by (auto simp: hashContent_def dest!: toString36_inj intro: signed_word_eqI)

lemma hashContent_update:
  assumes "i < length content" "u \<noteq> content ! i"
  shows "hashContent (content[i := u]) \<noteq> hashContent content"
proof
  assume "hashContent (content[i := u]) = hashContent content"
  then have "hashLoop (content[i := u]) = hashLoop content" by (simp add: hashContent_eq_iff)
  then have "hashLoop (take i content @ u # drop (Suc i) content)
      = hashLoop (take i content @ content ! i # drop (Suc i) content)"
    using assms(1) by (simp add: upd_conv_take_nth_drop id_take_nth_drop [symmetric])
  then have "u = content ! i" by (rule hashLoop_change_unit)
  with assms(2) show False by simp
qed

subsection \<open>Files and the cache\<close>

lemma getProp_exportFileHash:
  "getProp (cachedData parsed t h) (js ''exportFileHash'') = Some (JStr h)"
  by (simp add: cachedData_def js_def)

lemma jtruthy_cachedData: "jtruthy (Some (cachedData parsed t h))"
  by (simp add: cachedData_def)

lemma read_token_file:
  assumes inv: "codec_inverts R (deriveEncryptionKey R w) (fst (randomBytes w 16)) data"
    and sizes: "gcm_sizes R (deriveEncryptionKey R w) (fst (randomBytes w 16)) data"
    and fl: "files w' filePath = Some (fst (encryptData R w data))"
    and same: "systemInfo w' = systemInfo w"
  shows "readSecureFile R w' filePath =
     (if data = [] then Inr (fst (encryptData R w data)) else Inr data)"
proof -
  let ?iv = "fst (randomBytes w 16)"
  obtain encrypted authTag where
    e: "aes_256_gcm_encrypt R (deriveEncryptionKey R w) ?iv (utf8_encode data) = (encrypted, authTag)"
    by (cases "aes_256_gcm_encrypt R (deriveEncryptionKey R w) ?iv (utf8_encode data)")
  have t: "fst (encryptData R w data) = JSON_stringify R 0 (tokenObject ?iv authTag encrypted)"
    by (simp add: encryptData_fst e)
  from inv e have p: "JSON_parse R (fst (encryptData R w data)) = Some (tokenObject ?iv authTag encrypted)"
    by (simp add: codec_inverts_def t)
  from sizes e have l: "length encrypted = length (utf8_encode data)" "length authTag = 16"
    by (simp_all add: gcm_sizes_def)
  have iv: "?iv \<noteq> []" using randomBytes_length [of w 16] by auto
  have tag: "authTag \<noteq> []" using l(2) by auto
  have enc: "encrypted = [] \<longleftrightarrow> data = []"
    using l(1) utf8_encode_empty_iff [of data] by auto
  have "isEncrypted R (fst (encryptData R w data)) \<longleftrightarrow> data \<noteq> []"
    using isEncrypted_token [OF p] iv tag enc by simp
  then show ?thesis
    using fl decrypt_encrypt [OF inv same] by (simp add: readSecureFile_def)
qed

lemma writeSecureFile_fields:
  "files (writeSecureFile R w filePath data True) = (files w)(filePath \<mapsto> fst (encryptData R w data))"
  "exportFilePath (writeSecureFile R w filePath data True) = exportFilePath w"
  "supportPath (writeSecureFile R w filePath data True) = supportPath w"
  "systemInfo (writeSecureFile R w filePath data True) = systemInfo w"
  "ingestions (writeSecureFile R w filePath data True) = ingestions w"
  by (simp_all add: writeSecureFile_def setSecureFilePermissions_def encryptData_def randomBytes_def
      systemInfo_def Let_def split: prod.splits)

lemma loadCachedData_cases:
  "(\<exists>v. loadCachedData R w = (Some v, w)) \<or>
   loadCachedData R w = (None, w) \<and> files w (getCacheFilePath w) = None \<or>
   loadCachedData R w = (None, unlink w (getCacheFilePath w)) \<and> cacheUnreadable R w"
  by (auto simp: loadCachedData_def cacheUnreadable_def Let_def split: sum.splits option.splits)

lemma loadCachedData_unreadable:
  "cacheUnreadable R w \<Longrightarrow> loadCachedData R w = (None, unlink w (getCacheFilePath w))"
  by (auto simp: loadCachedData_def cacheUnreadable_def Let_def split: sum.splits option.splits)

lemma loadCachedData_Some:
  "fst (loadCachedData R w) = Some c \<Longrightarrow> loadCachedData R w = (Some c, w)"
  by (auto simp: loadCachedData_def Let_def split: sum.splits option.splits if_splits)

lemma loadCachedData_absent:
  "files w (getCacheFilePath w) = None \<Longrightarrow> loadCachedData R w = (None, w)"
  by (simp add: loadCachedData_def)

lemma unlink_fields:
  "exportFilePath (unlink w f) = exportFilePath w"
  "supportPath (unlink w f) = supportPath w"
  "files (unlink w f) f = None"
  "getCacheFilePath (unlink w f) = getCacheFilePath w"
  by (simp_all add: unlink_def getCacheFilePath_def)

lemma refreshCache_parse_fails:
  assumes "exportFilePath w = Some p" "p \<noteq> []" "files w p = Some content"
    and "csv_parse R content = Inl msg"
  shows "refreshCache R w = (Inl (CsvParseError msg), w\<lparr>ingestions := ingestions w + 1\<rparr>)"
  using assms by (simp add: refreshCache_def parseExportFile_def)

lemma refreshCache_ok:
  assumes "exportFilePath w = Some p" "p \<noteq> []" "files w p = Some content"
    and "csv_parse R content = Inr records"
  shows "refreshCache R w =
     (Inr (cachedData (parseRecords records) (clock w) (hashContent content)),
      saveCachedData R (secureExportFile (w\<lparr>ingestions := ingestions w + 1\<rparr>) p)
        (cachedData (parseRecords records) (clock w) (hashContent content)))"
  using assms
  by (simp add: refreshCache_def parseExportFile_def calculateFileHash_def secureExportFile_def Let_def)

lemma same_fingerprint_serves_cache:
  assumes "exportFilePath w = Some p" "p \<noteq> []" "files w p = Some content'"
    and "loadCachedData R w = (Some c, w)" "jtruthy (Some c)"
    and "getProp c (js ''exportFileHash'') = Some (JStr (hashContent content))"
    and "hashContent content' = hashContent content"
  shows "getCachedData R False w = (Inr c, w)"
  using assms by (simp add: getCachedData_def calculateFileHash_def)

subsection \<open>Encrypting in a world with the same machine and the same random bytes\<close>

lemma encryptData_cong:
  assumes "systemInfo w' = systemInfo w" "entropy w' = entropy w" "drawn w' = drawn w"
  shows "fst (encryptData R w' data) = fst (encryptData R w data)"
  using assms by (simp add: encryptData_fst deriveEncryptionKey_def randomBytes_def)

subsection \<open>A surrogate without its partner\<close>

lemma utf8_lone_surrogate: "utf8_encode [0xD800] = utf8_encode [0xFFFD]"
  by (simp add: isHighSurrogate_def isLowSurrogate_def)

lemma encryptData_lone_surrogate: "encryptData R w [0xD800] = encryptData R w [0xFFFD]"
  by (simp only: encryptData_def utf8_lone_surrogate)

subsection \<open>The small runtime\<close>

lemma hash_ab: "hashContent (js ''a,b'') = js ''211z''"
  by (simp add: hashContent_def hashLoop_def hashStep_def toString36_def toRadix36.simps digit36_def js_def)

lemma demoPlain: "demoStringify 2 demoData = js ''D211z''"
  by (simp add: demoStringify_def demoData_def cachedData_def hash_ab) (simp add: js_def)

lemma demo_key: "deriveEncryptionKey (demoRuntime T) w = replicate 32 (of_nat (length (systemInfo w)))"
  by (simp add: deriveEncryptionKey_def demoRuntime_def demoKdf_def)

lemma demo_systemInfo: "systemInfo demoWorld = js ''mac|ann|darwin|arm64''"
  by (simp add: systemInfo_def demoWorld_def js_def)

lemma demo_token:
  "demoToken data = tokenObject (fst (randomBytes demoWorld 16))
      (demoTag (deriveEncryptionKey (demoRuntime T) demoWorld) (map (\<lambda>b. b + 1) (utf8_encode data)))
      (map (\<lambda>b. b + 1) (utf8_encode data))"
  by (simp add: demoToken_def demoEncrypt_def demo_key demoKdf_def)

lemma length_demoTag: "length (demoTag (deriveEncryptionKey (demoRuntime T) w) ct) = 16"
  by (simp add: demoTag_def demo_key)

lemma demoStringify_tokenJson: "demoStringify n (tokenJson i t e) = js ''T'' @ t @ js ''.'' @ e"
  by (simp add: demoStringify_def tokenJson_keys)

lemma demoStringify_token:
  "demoStringify n (tokenObject iv t e) = js ''T'' @ hex_encode t @ js ''.'' @ hex_encode e"
  by (simp add: tokenObject_def demoStringify_tokenJson)

lemma utf8_plain: "utf8_encode (js ''D211z'') = [68, 50, 49, 49, 122]"
  by (simp add: js_def isHighSurrogate_def isLowSurrogate_def utf8_of_codepoint_def)

lemma demo_parse_plain_token:
  "demoParse demoTable (demoStringify 0 (demoToken (js ''D211z''))) = Some (demoToken (js ''D211z''))"
  by (simp add: demoParse_def demoTable_def demoPlain)

lemma demo_parse_empty_token:
  "demoParse demoTable (demoStringify 0 (demoToken [])) = Some (demoToken [])"
proof -
  have "length (demoStringify 0 (demoToken (js ''D211z''))) \<noteq> length (demoStringify 0 (demoToken []))"
    by (simp add: demo_token [of _ demoTable] demoStringify_token length_hex_encode length_demoTag
        utf8_plain)
  then have "demoStringify 0 (demoToken (js ''D211z'')) \<noteq> demoStringify 0 (demoToken [])"
    by auto
  then show ?thesis
    by (simp add: demoParse_def demoTable_def demoPlain)
qed

lemma demo_parse_data:
  "demoParse demoTable (js ''D211z'') = Some demoData"
proof -
  have a: "demoStringify 0 (demoToken d) \<noteq> js ''D211z''" for d
    by (simp add: demo_token [of _ demoTable] demoStringify_token js_def)
  have b: "demoStringify 0 demoData = js ''D211z''"
    using demoPlain by (simp add: demoStringify_def)
  show ?thesis
    by (simp add: demoParse_def demoTable_def a a [symmetric] b)
qed

lemma demo_codec_plain:
  "codec_inverts (demoRuntime demoTable) (deriveEncryptionKey (demoRuntime demoTable) demoWorld)
     (fst (randomBytes demoWorld 16)) (js ''D211z'')"
proof -
  have iv: "fst (randomBytes demoWorld 16) \<noteq> []"
    using randomBytes_length [of demoWorld 16] by auto
  have u: "map ucast (utf8_encode (js ''D211z'')) = js ''D211z''"
    by (simp only: utf8_plain) (simp add: js_def)
  have m: "map ((\<lambda>b. b - 1) \<circ> (\<lambda>b. b + 1)) xs = xs" for xs :: bytes
    by (simp add: comp_def)
  show ?thesis
    using demo_parse_plain_token iv u
    by (simp add: codec_inverts_def demoRuntime_def demoEncrypt_def demoDecrypt_def
        demo_token [of _ demoTable] m)
qed

lemma demo_codec_empty:
  "codec_inverts (demoRuntime demoTable) (deriveEncryptionKey (demoRuntime demoTable) demoWorld)
     (fst (randomBytes demoWorld 16)) []"
proof -
  have iv: "fst (randomBytes demoWorld 16) \<noteq> []"
    using randomBytes_length [of demoWorld 16] by auto
  show ?thesis
    using demo_parse_empty_token iv
    by (simp add: codec_inverts_def demoRuntime_def demoEncrypt_def demoDecrypt_def
        demo_token [of _ demoTable])
qed

lemma demo_sizes:
  "gcm_sizes (demoRuntime T) (deriveEncryptionKey (demoRuntime T) w) iv data"
  using length_demoTag [of T w]
  by (simp add: gcm_sizes_def demoEncrypt_def demoRuntime_def)

subsection \<open>Synonym columns and rows without a type\<close>

lemma or_str_firstNonEmpty1: "or_str (r (js a)) = or_str (firstNonEmpty r [a])"
  by (simp add: or_str_def split: option.splits)

lemma or_str_firstNonEmpty2:
  "or_str (or_else (r (js a)) (r (js b))) = or_str (firstNonEmpty r [a, b])"
  by (simp add: or_str_def or_else_def truthy_def split: option.splits)

lemma or_undefined_firstNonEmpty2:
  "or_undefined (or_else (r (js a)) (r (js b))) = firstNonEmpty r [a, b]"
  by (simp add: or_undefined_def or_else_def truthy_def split: option.splits)

lemma or_undefined_firstNonEmpty3:
  "or_undefined (or_else (or_else (r (js a)) (r (js b))) (r (js c))) = firstNonEmpty r [a, b, c]"
  by (simp add: or_undefined_def or_else_def truthy_def split: option.splits)

lemma absent_type_classification:
  assumes "\<not> truthy (r (js ''type''))"
  shows "pushRecord acc r =
     (if hasCreditCardFields r then acc\<lparr>creditCards := creditCards acc @ [parseCreditCard r]\<rparr>
      else if hasPasswordFields r then acc\<lparr>passwords := passwords acc @ [parsePassword r]\<rparr>
      else if hasSecureNoteFields r then acc\<lparr>secureNotes := secureNotes acc @ [parseSecureNote r]\<rparr>
      else acc\<lparr>passwords := passwords acc @ [parsePassword r]\<rparr>)"
proof -
  have t: "itemType r = inferItemType r"
    using assms by (auto simp: itemType_def truthy_def toLowerCase_def split: option.splits)
  have d: "js ''creditcard'' \<noteq> js ''password''" "js ''creditcard'' \<noteq> js ''login''"
    "js ''note'' \<noteq> js ''password''" "js ''note'' \<noteq> js ''login''"
    "js ''note'' \<noteq> js ''creditcard''" "js ''note'' \<noteq> js ''credit_card''" "js ''note'' \<noteq> js ''card''"
    by (simp_all add: js_def)
  show ?thesis
    by (simp add: pushRecord_def t inferItemType_def d)
qed

subsection \<open>The joined identity\<close>




subsection \<open>The small runtime: a text that is no JSON\<close>



lemma demo_cache_path: "getCacheFilePath demoWorld = ''/support/nordpass-cache.json''"
  by (simp add: getCacheFilePath_def demoWorld_def)

subsection \<open>Hex digits and the case of letters\<close>



lemma hexValue_low_byte: "hexValue (c AND 0xFF) = hexValue c"
  by (simp add: hexValue_def Let_def and.assoc)

lemma hex_decode_low_byte: "hex_decode [0x164, 0x36] = [0xd6]"
  by (simp add: hexValue_def)


subsection \<open>The small runtime: the changed tokens\<close>

lemma replicate_15: "replicate 15 x = [x, x, x, x, x, x, x, x, x, x, x, x, x, x, x]"
  by (simp add: eval_nat_numeral)


lemma demo_tag:
  "demoTag (deriveEncryptionKey (demoRuntime T) w) ct
     = replicate 15 (of_nat (length (systemInfo w))) @ [sum_list ct]"
  by (simp add: demoTag_def demo_key)

lemma demo_cipher_text: "map (\<lambda>b. b + 1) (utf8_encode (js ''D211z'')) = [69, 51, 50, 50, 123]"
  by (simp only: utf8_plain) simp

lemma demoTagHex_tag:
  "demoTagHex = hex_encode (demoTag (deriveEncryptionKey (demoRuntime T) demoWorld)
      (map (\<lambda>b. b + 1) (utf8_encode (js ''D211z''))))"
  by (simp add: demoTagHex_def demo_key demoKdf_def demo_cipher_text)

lemma demo_tag_plain:
  "demoTag (deriveEncryptionKey (demoRuntime T) demoWorld) [69, 51, 50, 50, 123]
     = [20, 20, 20, 20, 20, 20, 20, 20, 20, 20, 20, 20, 20, 20, 20, 87]"
  by (simp only: demo_tag replicate_15) (simp add: demo_systemInfo js_def)


lemma demoTagHex_val: "demoTagHex = js ''14141414141414141414141414141457''"
  by (simp only: demoTagHex_tag [of demoTable] demo_cipher_text demo_tag_plain)
     (simp add: hex_encode_def hexDigit_def js_def)


lemma demo_token_text:
  "demoStringify 0 (demoToken (js ''D211z'')) = js ''T14141414141414141414141414141457.453332327b''"
proof -
  have "hex_encode (map (\<lambda>b. b + 1) (utf8_encode (js ''D211z''))) = js ''453332327b''"
    by (simp only: utf8_plain) (simp add: hex_encode_def hexDigit_def js_def)
  then show ?thesis
    by (simp add: demo_token [of _ demoTable] demoStringify_token demoTagHex_tag [symmetric] demoTagHex_val)
       (simp add: js_def)
qed








lemma demo_encrypt:
  "aes_256_gcm_encrypt (demoRuntime T) key iv pt
     = (map (\<lambda>b. b + 1) pt, demoTag key (map (\<lambda>b. b + 1) pt))"
  by (simp add: demoRuntime_def demoEncrypt_def)












subsection \<open>Rebuilds that fail, and rebuilds after an unreadable cache\<close>



lemma get_unreadable:
  assumes "exportFilePath w = Some p" "p \<noteq> []" "cacheUnreadable R w"
  shows "getCachedData R False w = refreshCache R (unlink w (getCacheFilePath w))"
  using assms by (simp add: getCachedData_def loadCachedData_unreadable)

lemma get_absent:
  assumes "exportFilePath w = Some p" "p \<noteq> []" "files w (getCacheFilePath w) = None"
  shows "getCachedData R False w = refreshCache R w"
  using assms by (simp add: getCachedData_def loadCachedData_absent)

lemma unlink_more_fields:
  "clock (unlink w f) = clock w"
  "ingestions (unlink w f) = ingestions w"
  "systemInfo (unlink w f) = systemInfo w"
  "entropy (unlink w f) = entropy w"
  "drawn (unlink w f) = drawn w"
  "files (unlink w f) = (files w)(f := None)"
  by (simp_all add: unlink_def systemInfo_def)


subsection \<open>The small runtime: a stale and an unreadable cache\<close>

lemma demo_token_file:
  "fst (encryptData (demoRuntime T) demoWorld (js ''D211z''))
     = js ''T14141414141414141414141414141457.453332327b''"
  using demo_token_text
  by (simp add: encryptData_fst demo_encrypt demo_token [of _ T])
     (simp add: demoRuntime_def)

lemma demo_csv_quote: "csv_parse (demoRuntime T) [34] = Inl (js ''Quote Not Closed'')"
  by (simp add: demoRuntime_def demoCsv_def)


lemma hash_quote: "hashContent [34] \<noteq> hashContent (js ''a,b'')"
  by (simp add: hash_ab)
     (simp add: hashContent_def hashLoop_def hashStep_def toString36_def toRadix36.simps digit36_def js_def)

lemma stale_load: "loadCachedData (demoRuntime demoTable) staleWorld = (Some demoData, staleWorld)"
proof -
  let ?R = "demoRuntime demoTable"
  let ?c = "''/support/nordpass-cache.json''"
  have c: "getCacheFilePath staleWorld = ?c"
    by (simp add: getCacheFilePath_def staleWorld_def demoWorld_def)
  have fl: "files staleWorld ?c = Some (fst (encryptData ?R demoWorld (js ''D211z'')))"
    by (simp add: staleWorld_def)
  have same: "systemInfo staleWorld = systemInfo demoWorld"
    by (simp add: systemInfo_def staleWorld_def)
  have ne: "js ''D211z'' \<noteq> []" by (simp add: js_def)
  have rd: "readSecureFile ?R staleWorld ?c = Inr (js ''D211z'')"
    using read_token_file [OF demo_codec_plain demo_sizes fl same] ne by simp
  have g: "JSON_parse ?R (js ''D211z'') = Some demoData"
    using demo_parse_data by (simp add: demoRuntime_def)
  show ?thesis
    using fl rd g by (simp add: loadCachedData_def c)
qed


subsection \<open>The small runtime: the token of another machine\<close>


lemma machineA_iv: "fst (randomBytes machineA 16) = fst (randomBytes demoWorld 16)"
  by (simp add: randomBytes_def machineA_def)






section \<open>The claims\<close>

subsection \<open>C1: classification of a row without a recognised type\<close>

text \<open>
  Claim C1: a row whose type column is absent, or holds a value that is not in the table, is
  classified by its fields, payment card before credential before note, and is a credential
  when no group of fields matches.

  A row without a type column, or with an empty one, goes through \<open>inferItemType\<close>, which
  does exactly that (\<open>absent_type_classification\<close>). A row whose type is not empty and not
  in the table keeps that type and reaches the \<open>default\<close> branch of the \<open>switch\<close>, which asks
  \<open>hasPasswordFields\<close> first and has no last \<open>else\<close>. So the row with type \<open>bank\<close>, a
  password and a card number has card fields and still becomes a credential, and the row
  with type \<open>bank\<close> and only a name is kept in none of the three lists.
\<close>

theorem unrecognized_type_not_card_first:
  "hasCreditCardFields [js ''type'' \<mapsto> js ''bank'', js ''password'' \<mapsto> js ''pw'', js ''cardNumber'' \<mapsto> js ''4111'']
   \<and> parseRecords [[js ''type'' \<mapsto> js ''bank'', js ''password'' \<mapsto> js ''pw'', js ''cardNumber'' \<mapsto> js ''4111'']]
     = \<lparr>passwords = [parsePassword [js ''type'' \<mapsto> js ''bank'', js ''password'' \<mapsto> js ''pw'', js ''cardNumber'' \<mapsto> js ''4111'']],
        creditCards = [], secureNotes = []\<rparr>
   \<and> parseRecords [[js ''type'' \<mapsto> js ''bank'', js ''name'' \<mapsto> js ''x'']]
     = \<lparr>passwords = [], creditCards = [], secureNotes = []\<rparr>"
  by (simp add: parseRecords_def pushRecord_def itemType_def js_def toLowerCase_def lowerUnit_def
      hasPasswordFields_def hasCreditCardFields_def hasSecureNoteFields_def or_else_def truthy_def)

subsection \<open>C2: a changed fingerprint forces a rebuild\<close>

text \<open>
  Claim C2, as amended: when the cache holds the fingerprint of the content it was built
  from and the fingerprint of the present content of the export file differs from it,
  \<open>getCachedData(false)\<close> rebuilds (it is \<open>refreshCache\<close>); and a content that differs from
  the cached one in exactly one code unit has a different fingerprint. The fingerprint is
  read from the decoded text of the file, one UTF-16 code unit at a time.
\<close>

theorem changed_fingerprint_forces_rebuild:
  assumes "exportFilePath w = Some p" "p \<noteq> []" "files w p = Some content'"
    and "fst (loadCachedData R w) = Some c"
    and "getProp c (js ''exportFileHash'') = Some (JStr (hashContent content))"
  shows "(hashContent content' \<noteq> hashContent content \<longrightarrow> getCachedData R False w = refreshCache R w)
    \<and> (\<forall>i u. i < length content \<and> u \<noteq> content ! i \<longrightarrow>
          hashContent (content[i := u]) \<noteq> hashContent content)"
proof -
  have l: "loadCachedData R w = (Some c, w)" using assms(4) by (rule loadCachedData_Some)
  have "getCachedData R False w = refreshCache R w" if "hashContent content' \<noteq> hashContent content"
    using assms(1,2,3,5) l that by (simp add: getCachedData_def calculateFileHash_def)
  then show ?thesis by (simp add: hashContent_update)
qed

text \<open>
  An instance: the cache is the unencrypted text of \<open>demoData\<close>, built from \<open>a,b\<close>, and
  the export file now reads \<open>a,c\<close>.
\<close>

theorem changed_fingerprint_forces_rebuild_witness:
  "hashContent (js ''a,c'') \<noteq> hashContent (js ''a,b'')
   \<and> getCachedData (demoRuntime demoTable) False
        (demoWorld\<lparr>files := [''/export.csv'' \<mapsto> js ''a,c'', ''/support/nordpass-cache.json'' \<mapsto> js ''D211z'']\<rparr>)
     = refreshCache (demoRuntime demoTable)
        (demoWorld\<lparr>files := [''/export.csv'' \<mapsto> js ''a,c'', ''/support/nordpass-cache.json'' \<mapsto> js ''D211z'']\<rparr>)
   \<and> (2 < length (js ''a,b'') \<and> (99 :: 16 word) \<noteq> js ''a,b'' ! 2)
   \<and> hashContent ((js ''a,b'')[2 := 99]) \<noteq> hashContent (js ''a,b'')"
proof -
  let ?R = "demoRuntime demoTable"
  let ?w = "demoWorld\<lparr>files := [''/export.csv'' \<mapsto> js ''a,c'', ''/support/nordpass-cache.json'' \<mapsto> js ''D211z'']\<rparr>"
  have c: "getCacheFilePath ?w = ''/support/nordpass-cache.json''"
    by (simp add: getCacheFilePath_def demoWorld_def)
  have g: "JSON_parse ?R (js ''D211z'') = Some demoData"
    using demo_parse_data by (simp add: demoRuntime_def)
  have ne: "\<not> isEncrypted ?R (js ''D211z'')"
    by (simp add: isEncrypted_def g) (simp add: demoData_def cachedData_def js_def)
  have 1: "exportFilePath ?w = Some ''/export.csv''" by (simp add: demoWorld_def)
  have 2: "''/export.csv'' \<noteq> []" by simp
  have 3: "files ?w ''/export.csv'' = Some (js ''a,c'')" by simp
  have 4: "fst (loadCachedData ?R ?w) = Some demoData"
    by (simp add: loadCachedData_def c readSecureFile_def ne g)
  have 5: "getProp demoData (js ''exportFileHash'') = Some (JStr (hashContent (js ''a,b'')))"
    by (simp add: demoData_def getProp_exportFileHash)
  have k: "2 < length (js ''a,b'') \<and> (99 :: 16 word) \<noteq> js ''a,b'' ! 2" by (simp add: js_def)
  have e: "(js ''a,b'')[2 := 99] = js ''a,c''" by (simp add: js_def)
  from changed_fingerprint_forces_rebuild [OF 1 2 3 4 5]
  have a: "hashContent (js ''a,c'') \<noteq> hashContent (js ''a,b'') \<longrightarrow>
      getCachedData ?R False ?w = refreshCache ?R ?w"
    and b: "\<forall>i u. i < length (js ''a,b'') \<and> u \<noteq> js ''a,b'' ! i \<longrightarrow>
      hashContent ((js ''a,b'')[i := u]) \<noteq> hashContent (js ''a,b'')"
    by blast+
  from b k have d: "hashContent ((js ''a,b'')[2 := 99]) \<noteq> hashContent (js ''a,b'')" by blast
  then have d': "hashContent (js ''a,c'') \<noteq> hashContent (js ''a,b'')" unfolding e .
  from a d' have "getCachedData ?R False ?w = refreshCache ?R ?w" by blast
  with d d' k show ?thesis by blast
qed

text \<open>
  The claim as stated, that any two different contents have different fingerprints, fails:
  the fingerprint is a 32-bit value, and the contents \<open>Aa\<close> and \<open>BB\<close>, of the same length,
  have the same one. A cache built from one is served for the other
  (\<open>same_fingerprint_serves_cache\<close>).
\<close>

theorem fingerprint_collision:
  "[0x41, 0x61] \<noteq> [0x42, 0x42 :: 16 word] \<and> hashContent [0x41, 0x61] = hashContent [0x42, 0x42]"
  by (simp add: hashContent_def hashLoop_def hashStep_def)

subsection \<open>C3: decryptData after encryptData\<close>

text \<open>
  Claim C3, as amended: for every string \<open>x\<close> whose UTF-8 encoding the decoder reads back
  to \<open>x\<close> (the empty string and text outside ASCII included), \<open>decryptData\<close> of
  \<open>encryptData x\<close> on the same machine is \<open>x\<close>, when \<open>JSON.parse\<close> reads the token
  \<open>JSON.stringify\<close> wrote and AES-256-GCM decrypts what it encrypted under the key and the
  nonce of this call.
\<close>

theorem decrypt_after_encrypt:
  assumes "codec_inverts R (deriveEncryptionKey R w) (fst (randomBytes w 16)) x"
  shows "decryptData R (snd (encryptData R w x)) (fst (encryptData R w x)) = Inr x"
  by (rule decrypt_encrypt [OF assms]) (simp add: encryptData_snd systemInfo_def)

text \<open>
  An instance, in the small runtime.
\<close>

theorem decrypt_after_encrypt_witness:
  "decryptData (demoRuntime demoTable) (snd (encryptData (demoRuntime demoTable) demoWorld (js ''D211z'')))
     (fst (encryptData (demoRuntime demoTable) demoWorld (js ''D211z''))) = Inr (js ''D211z'')"
  using decrypt_after_encrypt [OF demo_codec_plain] .

text \<open>
  The claim as stated, for every string, fails: the string made of the one code unit
  \<open>0xD800\<close>, a surrogate without its partner, is encrypted as the replacement character
  \<open>0xFFFD\<close> is, so in no runtime are both of them decrypted to themselves.
\<close>

theorem lone_surrogate_not_restored:
  "\<forall>R w. \<not> (decryptData R (snd (encryptData R w [0xD800])) (fst (encryptData R w [0xD800])) = Inr [0xD800]
      \<and> decryptData R (snd (encryptData R w [0xFFFD])) (fst (encryptData R w [0xFFFD])) = Inr [0xFFFD])"
proof (intro allI notI)
  fix R w
  assume "decryptData R (snd (encryptData R w [0xD800])) (fst (encryptData R w [0xD800])) = Inr [0xD800]
      \<and> decryptData R (snd (encryptData R w [0xFFFD])) (fst (encryptData R w [0xFFFD])) = Inr [0xFFFD]"
  then have "(Inr [0xD800] :: error + jsstring) = Inr [0xFFFD]"
    by (simp only: encryptData_lone_surrogate) (erule conjE, rule trans [OF sym], assumption, assumption)
  then show False by simp
qed

subsection \<open>C4: a token changed in its tag or its ciphertext\<close>




subsection \<open>C5: the key and the identity of the machine\<close>




subsection \<open>C6: two calls of getCachedData(false), one rebuild\<close>

text \<open>
  Claim C6: from a world with no cache file and a readable export file (that is not the
  cache file itself), the first \<open>getCachedData(false)\<close> runs the ingestion once and returns
  the data it built; the second one, in the world the first one left, runs no ingestion,
  changes nothing and returns the data \<open>loadCachedData\<close> read from the cache file. The
  runtime is asked to read back what it wrote: the JSON text of the data, and the token
  of that text.
\<close>

theorem get_twice_rebuilds_once:
  assumes path: "exportFilePath w = Some p" "p \<noteq> []" "p \<noteq> getCacheFilePath w"
    and src: "files w p = Some content"
    and nocache: "files w (getCacheFilePath w) = None"
    and csv: "csv_parse R content = Inr records"
    and data: "data = cachedData (parseRecords records) (clock w) (hashContent content)"
    and json: "JSON_parse R (JSON_stringify R 2 data) = Some data"
    and nonempty: "JSON_stringify R 2 data \<noteq> []"
    and inv: "codec_inverts R (deriveEncryptionKey R w) (fst (randomBytes w 16)) (JSON_stringify R 2 data)"
    and sizes: "gcm_sizes R (deriveEncryptionKey R w) (fst (randomBytes w 16)) (JSON_stringify R 2 data)"
    and w1: "w1 = snd (getCachedData R False w)"
  shows "getCachedData R False w = (Inr data, w1) \<and> ingestions w1 = ingestions w + 1
    \<and> loadCachedData R w1 = (Some data, w1)
    \<and> getCachedData R False w1 = (Inr data, w1)"
proof -
  define w2 where "w2 = secureExportFile (w\<lparr>ingestions := ingestions w + 1\<rparr>) p"
  define plain where "plain = JSON_stringify R 2 data"
  define c where "c = getCacheFilePath w"
  have w2: "files w2 = files w" "exportFilePath w2 = exportFilePath w" "supportPath w2 = supportPath w"
    "systemInfo w2 = systemInfo w" "entropy w2 = entropy w" "drawn w2 = drawn w"
    "ingestions w2 = ingestions w + 1" "getCacheFilePath w2 = c"
    by (simp_all add: w2_def c_def secureExportFile_def systemInfo_def getCacheFilePath_def)
  have "refreshCache R w = (Inr data, saveCachedData R w2 data)"
    unfolding w2_def data by (rule refreshCache_ok [OF path(1,2) src csv])
  then have first: "getCachedData R False w = (Inr data, saveCachedData R w2 data)"
    using path(1,2) nocache by (simp add: getCachedData_def loadCachedData_absent)
  then have w1': "w1 = writeSecureFile R w2 c plain True"
    using w1 by (simp add: saveCachedData_def w2 plain_def)
  have tok: "fst (encryptData R w2 plain) = fst (encryptData R w plain)"
    using w2(4,5,6) by (rule encryptData_cong)
  have cp: "getCacheFilePath w1 = c"
    using w2(8) by (simp add: w1' getCacheFilePath_def writeSecureFile_fields)
  have fc: "files w1 c = Some (fst (encryptData R w plain))"
    by (simp add: w1' writeSecureFile_fields tok)
  have fp: "files w1 p = Some content"
    using path(3) src by (simp add: w1' writeSecureFile_fields w2 c_def)
  have sys: "systemInfo w1 = systemInfo w"
    by (simp add: w1' writeSecureFile_fields w2)
  have ing: "ingestions w1 = ingestions w + 1"
    by (simp add: w1' writeSecureFile_fields w2)
  have ep: "exportFilePath w1 = Some p"
    by (simp add: w1' writeSecureFile_fields w2 path(1))
  have rd: "readSecureFile R w1 c = Inr plain"
    using read_token_file [OF inv [folded plain_def] sizes [folded plain_def] fc sys] nonempty
    by (simp add: plain_def)
  have load: "loadCachedData R w1 = (Some data, w1)"
    using fc rd json by (simp add: loadCachedData_def cp plain_def)
  have h: "getProp data (js ''exportFileHash'') = Some (JStr (hashContent content))"
    and t: "jtruthy (Some data)"
    by (simp_all add: data getProp_exportFileHash jtruthy_cachedData)
  have second: "getCachedData R False w1 = (Inr data, w1)"
    using ep path(2) load fp h t by (simp add: getCachedData_def calculateFileHash_def)
  from first w1' ing load second show ?thesis
    by (simp add: saveCachedData_def w2 plain_def)
qed

text \<open>
  An instance: the small runtime, from \<open>demoWorld\<close>.
\<close>

theorem get_twice_rebuilds_once_witness:
  "getCachedData (demoRuntime demoTable) False demoWorld
     = (Inr demoData, snd (getCachedData (demoRuntime demoTable) False demoWorld))
   \<and> ingestions (snd (getCachedData (demoRuntime demoTable) False demoWorld)) = 1
   \<and> getCachedData (demoRuntime demoTable) False (snd (getCachedData (demoRuntime demoTable) False demoWorld))
     = (Inr demoData, snd (getCachedData (demoRuntime demoTable) False demoWorld))"
proof -
  let ?R = "demoRuntime demoTable"
  have p: "JSON_stringify ?R 2 demoData = js ''D211z''"
    using demoPlain by (simp add: demoRuntime_def)
  have 1: "exportFilePath demoWorld = Some ''/export.csv''" by (simp add: demoWorld_def)
  have 2: "''/export.csv'' \<noteq> []" by simp
  have 3: "''/export.csv'' \<noteq> getCacheFilePath demoWorld" by (simp add: demo_cache_path)
  have 4: "files demoWorld ''/export.csv'' = Some (js ''a,b'')" by (simp add: demoWorld_def)
  have 5: "files demoWorld (getCacheFilePath demoWorld) = None"
    by (simp add: demo_cache_path) (simp add: demoWorld_def)
  have 6: "csv_parse ?R (js ''a,b'') = Inr [demoRow]"
    by (simp add: demoRuntime_def demoCsv_def js_def)
  have 7: "demoData = cachedData (parseRecords [demoRow]) (clock demoWorld) (hashContent (js ''a,b''))"
    by (simp add: demoData_def)
  have 8: "JSON_parse ?R (JSON_stringify ?R 2 demoData) = Some demoData"
    using demo_parse_data by (simp add: p) (simp add: demoRuntime_def)
  have 9: "JSON_stringify ?R 2 demoData \<noteq> []" by (simp add: p) (simp add: js_def)
  have 10: "codec_inverts ?R (deriveEncryptionKey ?R demoWorld) (fst (randomBytes demoWorld 16))
      (JSON_stringify ?R 2 demoData)"
    using demo_codec_plain by (simp only: p)
  have 11: "gcm_sizes ?R (deriveEncryptionKey ?R demoWorld) (fst (randomBytes demoWorld 16))
      (JSON_stringify ?R 2 demoData)"
    by (rule demo_sizes)
  have i: "ingestions demoWorld = 0" by (simp add: demoWorld_def)
  show ?thesis
    using get_twice_rebuilds_once [OF 1 2 3 4 5 6 7 8 9 10 11 refl] i by simp
qed

subsection \<open>C7: a failed rebuild keeps the cache file\<close>

text \<open>
  Claim C7: when the CSV reader throws on the export file, \<open>refreshCache\<close> and
  \<open>getCachedData(true)\<close> return that error and change nothing but the count of ingestions.
  So does \<open>getCachedData(false)\<close> when there is no cache file, and when the cache it loaded
  is stale (it is falsy, or its fingerprint is not that of the export file): the error
  reaches the caller, the stale cache is not served, and every file, the cache file
  included, is as it was. When the loaded cache has the fingerprint of the export file, no
  rebuild is tried and the cache is served. When the cache file cannot be read,
  \<open>loadCachedData\<close> removes it before the rebuild is tried (see C8), and the error of the
  rebuild is returned from the world without it. In short: whenever \<open>getCachedData(false)\<close>
  ran an ingestion it returns the error, and unless the cache file was unreadable the files
  are those it started with.
\<close>

theorem failed_rebuild_returns_error_keeps_cache:
  assumes path: "exportFilePath w = Some p" "p \<noteq> []"
    and src: "files w p = Some content"
    and csv: "csv_parse R content = Inl msg"
  shows "refreshCache R w = (Inl (CsvParseError msg), w\<lparr>ingestions := ingestions w + 1\<rparr>)
    \<and> getCachedData R True w = (Inl (CsvParseError msg), w\<lparr>ingestions := ingestions w + 1\<rparr>)
    \<and> (files w (getCacheFilePath w) = None \<longrightarrow>
         getCachedData R False w = (Inl (CsvParseError msg), w\<lparr>ingestions := ingestions w + 1\<rparr>))
    \<and> (\<forall>c. fst (loadCachedData R w) = Some c
            \<and> (\<not> jtruthy (Some c)
               \<or> getProp c (js ''exportFileHash'') \<noteq> Some (JStr (hashContent content))) \<longrightarrow>
         getCachedData R False w = (Inl (CsvParseError msg), w\<lparr>ingestions := ingestions w + 1\<rparr>))
    \<and> (\<forall>c. fst (loadCachedData R w) = Some c \<and> jtruthy (Some c)
            \<and> getProp c (js ''exportFileHash'') = Some (JStr (hashContent content)) \<longrightarrow>
         getCachedData R False w = (Inr c, w))
    \<and> (cacheUnreadable R w \<and> p \<noteq> getCacheFilePath w \<longrightarrow>
         getCachedData R False w
           = (Inl (CsvParseError msg), (unlink w (getCacheFilePath w))\<lparr>ingestions := ingestions w + 1\<rparr>))
    \<and> (\<not> cacheUnreadable R w \<longrightarrow> files (snd (getCachedData R False w)) = files w)
    \<and> (ingestions (snd (getCachedData R False w)) \<noteq> ingestions w \<longrightarrow>
         fst (getCachedData R False w) = Inl (CsvParseError msg))"
proof -
  define c where "c = getCacheFilePath w"
  define u where "u = unlink w c"
  let ?E = "(Inl (CsvParseError msg), w\<lparr>ingestions := ingestions w + 1\<rparr>) :: (error + json) \<times> world"
  have 1: "refreshCache R w = ?E"
    using path src csv by (rule refreshCache_parse_fails)
  have 2: "getCachedData R True w = ?E"
    using path 1 by (simp add: getCachedData_def)
  have 3: "getCachedData R False w = ?E" if "files w c = None"
    using get_absent [OF path that [unfolded c_def]] 1 by simp
  have 4: "getCachedData R False w = ?E"
    if h: "fst (loadCachedData R w) = Some v"
      "\<not> jtruthy (Some v) \<or> getProp v (js ''exportFileHash'') \<noteq> Some (JStr (hashContent content))"
    for v
  proof -
    have l: "loadCachedData R w = (Some v, w)" using h(1) by (rule loadCachedData_Some)
    show ?thesis using path src h(2) 1 l
      by (auto simp: getCachedData_def calculateFileHash_def)
  qed
  have 5: "getCachedData R False w = (Inr v, w)"
    if h: "fst (loadCachedData R w) = Some v" "jtruthy (Some v)"
      "getProp v (js ''exportFileHash'') = Some (JStr (hashContent content))"
    for v
  proof -
    have l: "loadCachedData R w = (Some v, w)" using h(1) by (rule loadCachedData_Some)
    show ?thesis using path src h(2,3) l
      by (simp add: getCachedData_def calculateFileHash_def)
  qed
  have 6: "getCachedData R False w = (Inl (CsvParseError msg), u\<lparr>ingestions := ingestions w + 1\<rparr>)"
    if h: "cacheUnreadable R w" "p \<noteq> c"
  proof -
    have up: "exportFilePath u = Some p" by (simp add: u_def unlink_fields path)
    have fu: "files u p = Some content" using h(2) src by (simp add: u_def unlink_more_fields)
    show ?thesis
      using refreshCache_parse_fails [OF up path(2) fu csv] get_unreadable [OF path h(1)]
      by (simp add: u_def c_def unlink_more_fields)
  qed
  from loadCachedData_cases [of R w] consider
    (some) v where "loadCachedData R w = (Some v, w)"
    | (none) "files w c = None"
    | (bad) "cacheUnreadable R w"
    unfolding c_def by (elim disjE exE conjE)
  then have 78: "(\<not> cacheUnreadable R w \<longrightarrow> files (snd (getCachedData R False w)) = files w)
    \<and> (ingestions (snd (getCachedData R False w)) \<noteq> ingestions w \<longrightarrow>
         fst (getCachedData R False w) = Inl (CsvParseError msg))"
  proof cases
    case some
    then have f: "fst (loadCachedData R w) = Some v" by simp
    have n: "\<not> cacheUnreadable R w"
      using some by (auto simp: loadCachedData_unreadable)
    show ?thesis
    proof (cases "jtruthy (Some v)
        \<and> getProp v (js ''exportFileHash'') = Some (JStr (hashContent content))")
      case True
      then show ?thesis using 5 [OF f] by simp
    next
      case False
      then show ?thesis using 4 [OF f] by auto
    qed
  next
    case none
    then show ?thesis using 3 by simp
  next
    case bad
    have "getCachedData R False w = refreshCache R u"
      unfolding u_def c_def using path bad by (rule get_unreadable)
    moreover have "exportFilePath u = Some p" by (simp add: u_def unlink_fields path)
    moreover have "ingestions u = ingestions w" by (simp add: u_def unlink_more_fields)
    ultimately show ?thesis using bad path(2) csv src
      by (auto simp: refreshCache_def parseExportFile_def u_def unlink_more_fields
          split: if_splits option.splits)
  qed
  from 1 2 3 4 5 6 78 show ?thesis unfolding u_def c_def by blast
qed

text \<open>
  An instance: \<open>staleWorld\<close>, whose cache file holds the token of the data built from
  \<open>a,b\<close> and whose export file now holds one quotation mark. The cache is loaded, the
  rebuild fails, the error is returned and the cache file still holds that token.
\<close>

theorem failed_rebuild_returns_error_keeps_cache_witness:
  "files staleWorld ''/support/nordpass-cache.json''
     = Some (js ''T14141414141414141414141414141457.453332327b'')
   \<and> fst (loadCachedData (demoRuntime demoTable) staleWorld) = Some demoData
   \<and> getCachedData (demoRuntime demoTable) False staleWorld
     = (Inl (CsvParseError (js ''Quote Not Closed'')), staleWorld\<lparr>ingestions := 1\<rparr>)
   \<and> files (snd (getCachedData (demoRuntime demoTable) False staleWorld)) ''/support/nordpass-cache.json''
     = Some (js ''T14141414141414141414141414141457.453332327b'')
   \<and> getCachedData (demoRuntime demoTable) True staleWorld
     = (Inl (CsvParseError (js ''Quote Not Closed'')), staleWorld\<lparr>ingestions := 1\<rparr>)
   \<and> refreshCache (demoRuntime demoTable) staleWorld
     = (Inl (CsvParseError (js ''Quote Not Closed'')), staleWorld\<lparr>ingestions := 1\<rparr>)"
proof -
  let ?R = "demoRuntime demoTable"
  have 1: "exportFilePath staleWorld = Some ''/export.csv''" by (simp add: staleWorld_def demoWorld_def)
  have 2: "''/export.csv'' \<noteq> []" by simp
  have 3: "files staleWorld ''/export.csv'' = Some [34]" by (simp add: staleWorld_def)
  have l: "fst (loadCachedData ?R staleWorld) = Some demoData" by (simp add: stale_load)
  have h: "getProp demoData (js ''exportFileHash'') \<noteq> Some (JStr (hashContent [34]))"
    using hash_quote by (simp add: demoData_def getProp_exportFileHash)
  have f: "files staleWorld ''/support/nordpass-cache.json''
     = Some (js ''T14141414141414141414141414141457.453332327b'')"
    by (simp add: staleWorld_def demo_token_file)
  have i: "ingestions staleWorld = 0" by (simp add: staleWorld_def demoWorld_def)
  from failed_rebuild_returns_error_keeps_cache [OF 1 2 3 demo_csv_quote] l h
  have a: "getCachedData ?R False staleWorld
     = (Inl (CsvParseError (js ''Quote Not Closed'')), staleWorld\<lparr>ingestions := ingestions staleWorld + 1\<rparr>)"
    and b: "getCachedData ?R True staleWorld
     = (Inl (CsvParseError (js ''Quote Not Closed'')), staleWorld\<lparr>ingestions := ingestions staleWorld + 1\<rparr>)"
    and c: "refreshCache ?R staleWorld
     = (Inl (CsvParseError (js ''Quote Not Closed'')), staleWorld\<lparr>ingestions := ingestions staleWorld + 1\<rparr>)"
    by blast+
  show ?thesis
    using l f by (simp add: a b c i)
qed

subsection \<open>C8: an unreadable cache file\<close>



subsection \<open>C9: extraction of a field from its synonym columns\<close>

text \<open>
  Claim C9, as amended: every field of the three kinds of items is the value of the first
  column, in the order of its list of synonyms, that the row has with a value that is not
  empty, taken as it is; values of later columns are never joined to it. When no column
  of the list has such a value the field is \<open>undefined\<close>, or the empty string for \<open>name\<close>,
  \<open>password\<close> and the \<open>note\<close> of a secure note.
\<close>

theorem extraction_first_nonempty_synonym:
  "parsePassword r = \<lparr>
     pw_name = or_str (firstNonEmpty r [''name'', ''title'']),
     pw_url = firstNonEmpty r [''url'', ''website''],
     pw_username = firstNonEmpty r [''username'', ''login''],
     pw_password = or_str (firstNonEmpty r [''password'']),
     pw_note = firstNonEmpty r [''note'', ''notes''],
     pw_folder = firstNonEmpty r [''folder'', ''category''] \<rparr>
   \<and> parseCreditCard r = \<lparr>
     cc_name = or_str (firstNonEmpty r [''name'', ''title'']),
     cc_cardholderName = firstNonEmpty r [''cardholderName'', ''cardholder_name'', ''cardholder''],
     cc_cardNumber = firstNonEmpty r [''cardNumber'', ''card_number'', ''number''],
     cc_expiryDate = firstNonEmpty r [''expiryDate'', ''expiry_date'', ''expiry''],
     cc_cvv = firstNonEmpty r [''cvv'', ''cvc'', ''securityCode''],
     cc_note = firstNonEmpty r [''note'', ''notes''],
     cc_folder = firstNonEmpty r [''folder'', ''category''] \<rparr>
   \<and> parseSecureNote r = \<lparr>
     sn_name = or_str (firstNonEmpty r [''name'', ''title'']),
     sn_note = or_str (firstNonEmpty r [''note'', ''notes'']),
     sn_folder = firstNonEmpty r [''folder'', ''category''] \<rparr>"
  unfolding parsePassword_def parseCreditCard_def parseSecureNote_def
  by (simp only: or_str_firstNonEmpty1 or_str_firstNonEmpty2 or_undefined_firstNonEmpty2
      or_undefined_firstNonEmpty3 simp_thms)

text \<open>
  The claim as stated, that the first synonym the row has wins even when its value is
  empty, fails: \<open>||\<close> skips an empty \<open>name\<close>, and the name of the item is the \<open>title\<close>.
\<close>

theorem empty_first_synonym_is_skipped:
  "firstPresent [js ''name'' \<mapsto> [], js ''title'' \<mapsto> js ''T''] [''name'', ''title''] = Some []
   \<and> pw_name (parsePassword [js ''name'' \<mapsto> [], js ''title'' \<mapsto> js ''T'']) = js ''T''"
  by (simp add: parsePassword_def or_str_def or_else_def truthy_def js_def)

subsection \<open>C10: readSecureFile after writeSecureFile\<close>

text \<open>
  Claim C10, as amended: under the same conditions on the runtime as for C3 and with the
  sizes of GCM, reading a file written with \<open>writeSecureFile(path, data, true)\<close> returns
  \<open>data\<close> when \<open>data\<close> is not empty; when it is empty, the \<open>encrypted\<close> property of the token
  is the empty string, \<open>isEncrypted\<close> is falsy, and \<open>readSecureFile\<close> returns the text of the
  token itself.
\<close>

theorem write_then_read:
  assumes inv: "codec_inverts R (deriveEncryptionKey R w) (fst (randomBytes w 16)) data"
    and sizes: "gcm_sizes R (deriveEncryptionKey R w) (fst (randomBytes w 16)) data"
  shows "readSecureFile R (writeSecureFile R w filePath data True) filePath =
     (if data = [] then Inr (fst (encryptData R w data)) else Inr data)"
  by (rule read_token_file [OF inv sizes]) (simp_all add: writeSecureFile_fields)

text \<open>
  Two instances: a plaintext that is not empty, and the empty one.
\<close>

theorem write_then_read_witness:
  "readSecureFile (demoRuntime demoTable)
      (writeSecureFile (demoRuntime demoTable) demoWorld ''/f'' (js ''D211z'') True) ''/f''
     = Inr (js ''D211z'')
   \<and> readSecureFile (demoRuntime demoTable)
      (writeSecureFile (demoRuntime demoTable) demoWorld ''/f'' [] True) ''/f''
     = Inr (fst (encryptData (demoRuntime demoTable) demoWorld []))"
  using write_then_read [OF demo_codec_plain demo_sizes, of "''/f''"]
    write_then_read [OF demo_codec_empty demo_sizes, of "''/f''"]
  by (simp add: js_def)

text \<open>
  The claim as stated, for every plaintext that is not empty, fails as C3 does: the files
  written for \<open>0xD800\<close> and for \<open>0xFFFD\<close> are the same, so reading cannot return both.
\<close>

theorem write_read_lone_surrogate:
  "\<forall>R w filePath.
     \<not> (readSecureFile R (writeSecureFile R w filePath [0xD800] True) filePath = Inr [0xD800]
        \<and> readSecureFile R (writeSecureFile R w filePath [0xFFFD] True) filePath = Inr [0xFFFD])"
proof (intro allI notI)
  fix R w filePath
  assume h: "readSecureFile R (writeSecureFile R w filePath [0xD800] True) filePath = Inr [0xD800]
        \<and> readSecureFile R (writeSecureFile R w filePath [0xFFFD] True) filePath = Inr [0xFFFD]"
  have e: "writeSecureFile R w filePath [0xD800] True = writeSecureFile R w filePath [0xFFFD] True"
    by (simp add: writeSecureFile_def encryptData_lone_surrogate)
  from h have a: "readSecureFile R (writeSecureFile R w filePath [0xFFFD] True) filePath = Inr [0xD800]"
    unfolding e by (rule conjunct1)
  from h have b: "readSecureFile R (writeSecureFile R w filePath [0xFFFD] True) filePath = Inr [0xFFFD]"
    by (rule conjunct2)
  from a b have "(Inr [0xD800] :: error + jsstring) = Inr [0xFFFD]"
    by (rule trans [OF sym])
  then show False by simp
qed

end
